theory Spec2Isabelle
  imports Complex_Main "HOL-Library.Log_Nat"
begin

section \<open>The C++ types the adapter computes with\<close>

subsection \<open>\<^verbatim>\<open>double\<close>: IEEE 754 binary64, round to nearest, ties to even\<close>

text \<open>
  The adapter's extents are C++ \<^verbatim>\<open>double\<close>s and \<^verbatim>\<open>initialize\<close> subtracts, adds, halves
  and compares them. A finite double is carried by its exact rational value
  (\<open>Fin 0\<close> is \<open>+0\<close>); an operation computes the exact result and rounds it to 53
  significant bits, exponent range \<open>-1074 .. 971\<close> for the unit in the last place.
  A NaN carries its sign bit (\<open>NaN True\<close> has it set), which the stream writes. An
  operation with a NaN operand returns that operand, the first of two; the NaN that
  \<open>\<infinity> - \<infinity>\<close> makes is the default one of x86, with the sign bit set.
\<close>

datatype double = Fin rat | NegZero | PInf | NInf | NaN bool

definition valof :: "double \<Rightarrow> rat" where
  "valof d = (case d of Fin q \<Rightarrow> q | _ \<Rightarrow> 0)"

definition floor_log :: "nat \<Rightarrow> rat \<Rightarrow> int" where
  \<comment> \<open>\<open>\<lfloor>log\<^sub>b a\<rfloor>\<close> for \<open>a > 0\<close>: one less than the number of base-\<open>b\<close> digits of \<open>\<lfloor>a\<rfloor>\<close>
      when \<open>1 \<le> a\<close>, and \<open>- \<lceil>log\<^sub>b (1 / a)\<rceil>\<close> below\<close>
  "floor_log b a =
     (if 1 \<le> a then int (floorlog b (nat \<lfloor>a\<rfloor>)) - 1
      else - int (floorlog b (nat (\<lceil>1 / a\<rceil> - 1))))"

definition round_half_even :: "rat \<Rightarrow> int" where
  "round_half_even x =
     (let f = \<lfloor>x\<rfloor>; r = x - of_int f
      in if r < 1 / 2 then f else if 1 / 2 < r then f + 1
         else if even f then f else f + 1)"

definition ulp_exponent :: "rat \<Rightarrow> int" where
  \<comment> \<open>the exponent of the unit in the last place for a magnitude \<open>a > 0\<close>; subnormal below \<open>2\<^sup>-\<^sup>1\<^sup>0\<^sup>2\<^sup>2\<close>\<close>
  "ulp_exponent a = max (floor_log 2 a - 52) (- 1074)"

definition round_magnitude :: "rat \<Rightarrow> rat" where
  "round_magnitude a = of_int (round_half_even (a / 2 powi ulp_exponent a)) * 2 powi ulp_exponent a"

definition round64 :: "rat \<Rightarrow> double" where
  "round64 v =
     (if v = 0 then Fin 0
      else if 2 ^ 1024 \<le> round_magnitude \<bar>v\<bar> then (if v < 0 then NInf else PInf)
      else if round_magnitude \<bar>v\<bar> = 0 then (if v < 0 then NegZero else Fin 0)
      else Fin (if v < 0 then - round_magnitude \<bar>v\<bar> else round_magnitude \<bar>v\<bar>))"

fun dneg :: "double \<Rightarrow> double" where
  "dneg (Fin q) = (if q = 0 then NegZero else Fin (- q))"
| "dneg NegZero = Fin 0"
| "dneg PInf = NInf"
| "dneg NInf = PInf"
| "dneg (NaN s) = NaN (\<not> s)"

fun dadd :: "double \<Rightarrow> double \<Rightarrow> double" where
  "dadd (NaN s) _ = NaN s"
| "dadd _ (NaN s) = NaN s"
| "dadd PInf NInf = NaN True"
| "dadd NInf PInf = NaN True"
| "dadd PInf _ = PInf"
| "dadd _ PInf = PInf"
| "dadd NInf _ = NInf"
| "dadd _ NInf = NInf"
| "dadd NegZero NegZero = NegZero"
| "dadd x y = (let v = valof x + valof y in if v = 0 then Fin 0 else round64 v)"

fun dsub :: "double \<Rightarrow> double \<Rightarrow> double" where
  "dsub (NaN s) _ = NaN s"
| "dsub _ (NaN s) = NaN s"
| "dsub x y = dadd x (dneg y)"

fun dhalf :: "double \<Rightarrow> double" where
  \<comment> \<open>\<^verbatim>\<open>d/2\<close>: the \<^verbatim>\<open>int\<close> 2 is converted to 2.0\<close>
  "dhalf (Fin q) = (if q = 0 then Fin 0 else round64 (q / 2))"
| "dhalf d = d"

fun dless :: "double \<Rightarrow> double \<Rightarrow> bool" where
  \<comment> \<open>\<^verbatim>\<open>x < y\<close>; every comparison with a NaN is false\<close>
  "dless (NaN s) _ = False"
| "dless _ (NaN s) = False"
| "dless PInf _ = False"
| "dless _ NInf = False"
| "dless NInf _ = True"
| "dless _ PInf = True"
| "dless x y = (valof x < valof y)"

fun deq :: "double \<Rightarrow> double \<Rightarrow> bool" where
  \<comment> \<open>\<^verbatim>\<open>x == y\<close>: a NaN equals nothing, the two zeros are equal\<close>
  "deq (NaN s) _ = False"
| "deq _ (NaN s) = False"
| "deq PInf PInf = True"
| "deq NInf NInf = True"
| "deq PInf _ = False"
| "deq _ PInf = False"
| "deq NInf _ = False"
| "deq _ NInf = False"
| "deq x y = (valof x = valof y)"

fun is_finite :: "double \<Rightarrow> bool" where
  "is_finite (Fin q) = True"
| "is_finite NegZero = True"
| "is_finite d = False"

subsection \<open>What a \<^verbatim>\<open>std::stringstream\<close> writes\<close>

text \<open>
  Integers are written in decimal (classic locale). With the default float field a
  \<^verbatim>\<open>double\<close> is written as \<^verbatim>\<open>printf("%.Pg")\<close> does, \<open>P\<close> the stream's precision: the
  value rounded to \<open>P\<close> significant decimal digits, in fixed notation when the decimal
  exponent \<open>X\<close> satisfies \<open>-4 \<le> X < P\<close> and in scientific notation otherwise,
  trailing zeros of the fraction removed. An infinity is written \<open>inf\<close> and a NaN
  \<open>nan\<close>, after a minus sign when the sign bit is set.
\<close>

definition digit_char :: "nat \<Rightarrow> char" where
  "digit_char d = ''0123456789'' ! d"

fun show_nat :: "nat \<Rightarrow> string" where
  "show_nat n = (if n < 10 then [digit_char n] else show_nat (n div 10) @ [digit_char (n mod 10)])"

declare show_nat.simps [simp del]

definition int_of_unsigned :: "nat \<Rightarrow> int" where
  \<comment> \<open>an \<^verbatim>\<open>unsigned int\<close> converted to \<^verbatim>\<open>int\<close>, both of 32 bits: from \<open>2\<^sup>3\<^sup>1\<close> on the value wraps
      to the negative numbers\<close>
  "int_of_unsigned n =
     (if n mod 2 ^ 32 < 2 ^ 31 then int (n mod 2 ^ 32) else int (n mod 2 ^ 32) - 2 ^ 32)"

definition show_int :: "int \<Rightarrow> string" where
  "show_int i = (if i < 0 then CHR ''-'' # show_nat (nat (- i)) else show_nat (nat i))"

definition strip_zeros :: "string \<Rightarrow> string" where
  "strip_zeros ds = rev (dropWhile (\<lambda>c. c = CHR ''0'') (rev ds))"

definition with_fraction :: "string \<Rightarrow> string \<Rightarrow> string" where
  "with_fraction ip fp = (let fp' = strip_zeros fp in if fp' = [] then ip else ip @ CHR ''.'' # fp')"

definition show_exponent :: "int \<Rightarrow> string" where
  "show_exponent X =
     (let ds = show_nat (nat \<bar>X\<bar>)
      in CHR ''e'' # (if X < 0 then CHR ''-'' else CHR ''+'') # (if length ds < 2 then CHR ''0'' # ds else ds))"

definition show_g :: "nat \<Rightarrow> rat \<Rightarrow> string" where
  \<comment> \<open>\<^verbatim>\<open>%.Pg\<close> of a positive value\<close>
  "show_g P a =
     (let p = (if P = 0 then 1 else P);
          X0 = floor_log 10 a;
          n0 = round_half_even (a / 10 powi (X0 - (int p - 1)));
          n = (if n0 = 10 ^ p then 10 ^ (p - 1) else n0);
          X = (if n0 = 10 ^ p then X0 + 1 else X0);
          ds = show_nat (nat n)
      in if X < - 4 \<or> int p \<le> X then with_fraction (take 1 ds) (drop 1 ds) @ show_exponent X
         else if 0 \<le> X then with_fraction (take (nat X + 1) ds) (drop (nat X + 1) ds)
         else with_fraction ''0'' (replicate (nat (- X - 1)) CHR ''0'' @ ds))"

fun show_double :: "nat \<Rightarrow> double \<Rightarrow> string" where
  "show_double P (Fin q) =
     (if q = 0 then ''0'' else if q < 0 then CHR ''-'' # show_g P (- q) else show_g P q)"
| "show_double P NegZero = ''-0''"
| "show_double P PInf = ''inf''"
| "show_double P NInf = ''-inf''"
| "show_double P (NaN s) = (if s then ''-nan'' else ''nan'')"

definition tolower :: "char \<Rightarrow> char" where
  \<comment> \<open>\<^verbatim>\<open>tolower\<close> of \<^verbatim>\<open><cctype>\<close> in the "C" locale: only \<^verbatim>\<open>A\<close> to \<^verbatim>\<open>Z\<close> change\<close>
  "tolower c =
     (case map_of (zip ''ABCDEFGHIJKLMNOPQRSTUVWXYZ'' ''abcdefghijklmnopqrstuvwxyz'') c of
        None \<Rightarrow> c
      | Some l \<Rightarrow> l)"

section \<open>The host framework's types\<close>

text \<open>
  Modelled from the spec: \<^verbatim>\<open>GeoExtent\<close>, \<^verbatim>\<open>Profile\<close>, \<^verbatim>\<open>TileKey\<close> and \<^verbatim>\<open>MapService\<close>
  (\<^verbatim>\<open>MapService.h\<close>) are declared outside \<^verbatim>\<open>ReaderWriterArcGIS.cpp\<close>. Each is the record of
  what the adapter reads through its accessors: an extent is \<open>(xmin, ymin, xmax, ymax)\<close>
  with width \<open>xmax - xmin\<close> and height \<open>ymax - ymin\<close>; a profile is a spatial reference,
  an extent and the tile grid at level 0; a tile key is \<open>(level, column, row, extent)\<close>,
  the first three of them \<^verbatim>\<open>unsigned int\<close>s, below \<open>2\<^sup>3\<^sup>2\<close>;
  the service descriptor holds the tiling capability, tile size, tile format and the
  declared profile, if any.
\<close>

record GeoExtent =
  xMin :: double
  yMin :: double
  xMax :: double
  yMax :: double

definition width :: "GeoExtent \<Rightarrow> double" where
  "width e = dsub (xMax e) (xMin e)"

definition height :: "GeoExtent \<Rightarrow> double" where
  "height e = dsub (yMax e) (yMin e)"

type_synonym SpatialReference = string

record Profile =
  getSRS :: SpatialReference
  getExtent :: GeoExtent
  numTilesWideAtLod0 :: nat
  numTilesHighAtLod0 :: nat

definition Profile_create ::
  "SpatialReference \<Rightarrow> double \<Rightarrow> double \<Rightarrow> double \<Rightarrow> double \<Rightarrow> nat \<Rightarrow> nat \<Rightarrow> Profile" where
  "Profile_create s xmin ymin xmax ymax tilesX tilesY =
     \<lparr>getSRS = s, getExtent = \<lparr>xMin = xmin, yMin = ymin, xMax = xmax, yMax = ymax\<rparr>,
      numTilesWideAtLod0 = tilesX, numTilesHighAtLod0 = tilesY\<rparr>"

definition getNumTiles0 :: "Profile \<Rightarrow> nat \<times> nat" where
  \<comment> \<open>\<^verbatim>\<open>profile->getNumTiles( 0, tilesX, tilesY )\<close>\<close>
  "getNumTiles0 p = (numTilesWideAtLod0 p, numTilesHighAtLod0 p)"

record TileKey =
  getLevelOfDetail :: nat
  tile_x :: nat
  tile_y :: nat
  getGeoExtent :: GeoExtent

record TileInfo =
  getTileSize :: int
  getFormat :: string

record MapService =
  isTiled :: bool
  getTileInfo :: TileInfo
  getProfile :: "Profile option"
  getError :: string

type_synonym Options = "string \<rightharpoonup> string"

section \<open>\<^verbatim>\<open>class ArcGISSource : public TileSource\<close>\<close>

text \<open>
  The fields of the class, with the two of the base class it uses: the options the
  source was created with and the profile that \<^verbatim>\<open>setProfile\<close> stores. A pointer that may
  be \<^verbatim>\<open>NULL\<close> is an \<open>option\<close>.
\<close>

record ArcGISSource =
  options :: "Options option"
  profile :: "Profile option"
  url :: string
  profile_str :: string
  map_str :: string
  layer :: string
  format :: string
  map_service :: MapService

definition getPluginData :: "Options option \<Rightarrow> string \<Rightarrow> string" where
  \<comment> \<open>what an empty string field holds after
      \<^verbatim>\<open>if ( options ) if ( options->getPluginData( k ) ) field = ...\<close>\<close>
  "getPluginData opts k =
     (case opts of None \<Rightarrow> [] | Some d \<Rightarrow> (case d k of None \<Rightarrow> [] | Some v \<Rightarrow> v))"

text \<open>
  The constructor. \<^verbatim>\<open>MapService::init\<close> is the parameter \<open>init\<close>: for a URL it gives the
  flag it returns and the descriptor it leaves behind. The flag is only logged: the
  second definition is what goes to \<^verbatim>\<open>osg::notify(osg::WARN)\<close>.
\<close>

definition ArcGISSource :: "(string \<Rightarrow> bool \<times> MapService) \<Rightarrow> Options option \<Rightarrow> ArcGISSource" where
  "ArcGISSource init opts =
     (let u = getPluginData opts ''url'';
          ps = getPluginData opts ''profile'';
          layer0 = ([] :: string);
          l = (if layer0 = [] then ''_alllayers'' else layer0);
          format0 = ([] :: string);
          f = (if format0 = [] then ''png'' else format0)
      in \<lparr>options = opts, profile = None, url = u, profile_str = ps, map_str = [],
          layer = l, format = f, map_service = snd (init u)\<rparr>)"

definition ArcGISSource_warnings :: "(string \<Rightarrow> bool \<times> MapService) \<Rightarrow> Options option \<Rightarrow> string list" where
  "ArcGISSource_warnings init opts =
     (let r = init (getPluginData opts ''url'')
      in if \<not> fst r
         then [''[osgearth] [ArcGIS] map service initialization failed: '' @ getError (snd r)]
         else [])"

text \<open>
  \<^verbatim>\<open>initialize\<close>. \<^verbatim>\<open>Profile::create( name )\<close> and the registry's global geodetic profile are
  parameters. Neither argument of the method is read.
\<close>

definition square_extent :: "Profile \<Rightarrow> Profile" where
  \<comment> \<open>the body of \<^verbatim>\<open>if ( !_map_service.isTiled() )\<close>\<close>
  "square_extent p =
     (let oldEx = getExtent p
      in if dless (height oldEx) (width oldEx) then
           let d = dsub (width oldEx) (height oldEx);
               (tilesX, tilesY) = getNumTiles0 p
           in Profile_create (getSRS p) (xMin oldEx) (dsub (yMin oldEx) (dhalf d))
                (xMax oldEx) (dadd (yMax oldEx) (dhalf d)) tilesX tilesY
         else if dless (width oldEx) (height oldEx) then
           let d = dsub (height oldEx) (width oldEx);
               (tilesX, tilesY) = getNumTiles0 p
           in Profile_create (getSRS p) (dsub (xMin oldEx) (dhalf d)) (yMin oldEx)
                (dadd (xMax oldEx) (dhalf d)) (yMax oldEx) tilesX tilesY
         else p)"

definition initialize ::
  "(string \<Rightarrow> Profile option) \<Rightarrow> Profile \<Rightarrow> string \<Rightarrow> Profile option \<Rightarrow> ArcGISSource \<Rightarrow> ArcGISSource" where
  "initialize createNamed globalGeodetic referenceURI overrideProfile a =
     (let p =
        (if profile_str a \<noteq> [] then createNamed (profile_str a)
         else case getProfile (map_service a) of
           Some sp \<Rightarrow> Some (if \<not> isTiled (map_service a) then square_extent sp else sp)
         | None \<Rightarrow> Some globalGeodetic)
      in a\<lparr>profile := p\<rparr>)"

text \<open>
  The per-request methods. Each returns its result and the object as it is after the
  call. \<^verbatim>\<open>HTTPClient::readImageFile\<close> is the parameter \<open>readImageFile\<close>; its result is
  \<open>None\<close> for a null image.
\<close>

definition getPixelsPerTile :: "ArcGISSource \<Rightarrow> int \<times> ArcGISSource" where
  "getPixelsPerTile a = (getTileSize (getTileInfo (map_service a)), a)"

definition image_format :: "ArcGISSource \<Rightarrow> string" where
  \<comment> \<open>the local \<^verbatim>\<open>f\<close> of \<^verbatim>\<open>createImage\<close>\<close>
  "image_format a =
     (let f = map tolower (getFormat (getTileInfo (map_service a)))
      in if length f > 3 \<and> take 3 f = ''png'' then ''png'' else f)"

definition image_url :: "ArcGISSource \<Rightarrow> TileKey \<Rightarrow> string" where
  \<comment> \<open>\<^verbatim>\<open>buf.str()\<close> at the end of \<^verbatim>\<open>createImage\<close>\<close>
  "image_url a key =
     (let level = int_of_unsigned (getLevelOfDetail key);
          f = image_format a
      in if isTiled (map_service a) then
           url a @ ''/tile'' @ ''/'' @ show_int level @ ''/'' @ show_nat (tile_y key)
             @ ''/'' @ show_nat (tile_x key) @ ''.'' @ f
         else
           let ex = getGeoExtent key
           in url a @ ''/export''
                @ ''?bbox='' @ show_double 16 (xMin ex) @ '','' @ show_double 16 (yMin ex)
                @ '','' @ show_double 16 (xMax ex) @ '','' @ show_double 16 (yMax ex)
                @ ''&format='' @ f
                @ ''&size=256,256''
                @ ''&transparent=true''
                @ ''&f=image''
                @ ''&'' @ ''.'' @ f)"

definition createImage ::
  "(string \<Rightarrow> Options option \<Rightarrow> 'progress \<Rightarrow> 'image option) \<Rightarrow> ArcGISSource \<Rightarrow> TileKey \<Rightarrow> 'progress
     \<Rightarrow> 'image option \<times> ArcGISSource" where
  "createImage readImageFile a key progress = (readImageFile (image_url a key) (options a) progress, a)"

definition createHeightField :: "ArcGISSource \<Rightarrow> TileKey \<Rightarrow> 'progress \<Rightarrow> 'heightfield option \<times> ArcGISSource" where
  "createHeightField a key progress = (None, a)"

definition getExtension :: "ArcGISSource \<Rightarrow> string \<times> ArcGISSource" where
  "getExtension a = (format a, a)"

section \<open>Notions of the specification\<close>

definition normalized_format :: "string \<Rightarrow> string" where
  \<comment> \<open>the specification's wording: the format in lowercase, and exactly \<open>png\<close> when
      that begins with \<open>png\<close>\<close>
  "normalized_format s = (if take 3 (map tolower s) = ''png'' then ''png'' else map tolower s)"

text \<open>
  The number a decimal numeral denotes, as the server reads a \<open>bbox\<close> coordinate: an
  optional minus sign, digits, an optional fraction after a point, an optional
  exponent after \<open>e\<close>.
\<close>

definition digit_value :: "char \<Rightarrow> nat" where
  "digit_value c = of_char c - 48"

definition digits_value :: "string \<Rightarrow> nat" where
  "digits_value ds = foldl (\<lambda>v c. 10 * v + digit_value c) 0 ds"

definition fraction_value :: "string \<Rightarrow> rat" where
  "fraction_value fs = of_nat (digits_value fs) / 10 ^ length fs"

definition mantissa_value :: "string \<Rightarrow> rat" where
  "mantissa_value s =
     of_nat (digits_value (takeWhile (\<lambda>c. c \<noteq> CHR ''.'') s))
       + fraction_value (drop 1 (dropWhile (\<lambda>c. c \<noteq> CHR ''.'') s))"

definition exponent_value :: "string \<Rightarrow> int" where
  "exponent_value s =
     (case s of [] \<Rightarrow> 0
      | c # ds \<Rightarrow> if c = CHR ''-'' then - int (digits_value ds) else int (digits_value ds))"

definition unsigned_value :: "string \<Rightarrow> rat" where
  "unsigned_value s =
     mantissa_value (takeWhile (\<lambda>c. c \<noteq> CHR ''e'') s)
       * 10 powi exponent_value (drop 1 (dropWhile (\<lambda>c. c \<noteq> CHR ''e'') s))"

definition decimal_value :: "string \<Rightarrow> rat" where
  "decimal_value s =
     (case s of [] \<Rightarrow> 0
      | c # r \<Rightarrow> if c = CHR ''-'' then - unsigned_value r else unsigned_value s)"

definition is_digit :: "char \<Rightarrow> bool" where
  "is_digit c \<longleftrightarrow> c \<in> set ''0123456789''"

definition half_unit :: "nat \<Rightarrow> rat \<Rightarrow> rat" where
  \<comment> \<open>half a unit of the \<open>P\<close>-th significant decimal digit of \<open>v\<close>: with
      \<open>10\<^sup>X \<le> \<bar>v\<bar> < 10\<^sup>X\<^sup>+\<^sup>1\<close> that digit has the weight \<open>10\<^sup>X\<^sup>-\<^sup>(\<^sup>P\<^sup>-\<^sup>1\<^sup>)\<close>\<close>
  "half_unit P v = (if v = 0 then 0 else 10 powi (floor_log 10 \<bar>v\<bar> - (int P - 1)) / 2)"

definition center :: "GeoExtent \<Rightarrow> rat \<times> rat" where
  \<comment> \<open>the centre of a finite extent, in exact arithmetic\<close>
  "center e = ((valof (xMin e) + valof (xMax e)) / 2, (valof (yMin e) + valof (yMax e)) / 2)"

text \<open>An operation is exact when its result is finite and is the exact result.\<close>

definition exact_add :: "double \<Rightarrow> double \<Rightarrow> bool" where
  "exact_add x y \<longleftrightarrow> is_finite (dadd x y) \<and> valof (dadd x y) = valof x + valof y"

definition exact_sub :: "double \<Rightarrow> double \<Rightarrow> bool" where
  "exact_sub x y \<longleftrightarrow> is_finite (dsub x y) \<and> valof (dsub x y) = valof x - valof y"

definition exact_half :: "double \<Rightarrow> bool" where
  "exact_half x \<longleftrightarrow> is_finite (dhalf x) \<and> valof (dhalf x) = valof x / 2"

definition exact_expansion :: "double \<Rightarrow> double \<Rightarrow> double \<Rightarrow> bool" where
  \<comment> \<open>no operation rounds when the axis from \<open>lo\<close> to \<open>hi\<close> is widened to the length \<open>w\<close>
      of the other axis: the length of the axis, the difference \<open>d\<close>, its half, and the
      two new bounds\<close>
  "exact_expansion w lo hi \<longleftrightarrow>
     exact_sub hi lo
     \<and> exact_sub w (dsub hi lo)
     \<and> exact_half (dsub w (dsub hi lo))
     \<and> exact_sub lo (dhalf (dsub w (dsub hi lo)))
     \<and> exact_add hi (dhalf (dsub w (dsub hi lo)))"

section \<open>Sample services\<close>

text \<open>
  Concrete collaborators for evaluating the adapter: a server URL, the options naming
  it, the geodetic profile \<open>(-180, -90, 180, 90)\<close> with two by one tiles, a table of
  named profiles, and three outcomes of \<^verbatim>\<open>MapService::init\<close>: a tiled service with
  \<open>PNG24\<close> tiles, a service that only exports images, and a failed metadata fetch.
\<close>

definition server_url :: string where
  "server_url = ''http://server/ArcGIS/rest/services/Layer/MapServer''"

definition server_options :: "Options option" where
  "server_options = Some (Map.empty(''url'' \<mapsto> server_url))"

definition forced_options :: "Options option" where
  "forced_options = Some (Map.empty(''url'' \<mapsto> server_url, ''profile'' \<mapsto> ''global-geodetic''))"

definition geodetic :: Profile where
  "geodetic = Profile_create ''WGS84'' (Fin (- 180)) (Fin (- 90)) (Fin 180) (Fin 90) 2 1"

definition named_profile :: "string \<Rightarrow> Profile option" where
  "named_profile n = (if n = ''global-geodetic'' then Some geodetic else None)"

definition tiled_service :: "string \<Rightarrow> bool \<times> MapService" where
  "tiled_service u =
     (True, \<lparr>isTiled = True, getTileInfo = \<lparr>getTileSize = 256, getFormat = ''PNG24''\<rparr>,
             getProfile = Some geodetic, getError = []\<rparr>)"

definition export_service :: "string \<Rightarrow> bool \<times> MapService" where
  "export_service u =
     (True, \<lparr>isTiled = False, getTileInfo = \<lparr>getTileSize = 256, getFormat = ''png''\<rparr>,
             getProfile = Some geodetic, getError = []\<rparr>)"

definition failed_service :: "string \<Rightarrow> bool \<times> MapService" where
  "failed_service u =
     (False, \<lparr>isTiled = False, getTileInfo = \<lparr>getTileSize = 0, getFormat = []\<rparr>,
              getProfile = None, getError = ''Unable to read metadata from ArcGIS service''\<rparr>)"

definition tile_3_5_2 :: TileKey where
  \<comment> \<open>level 3, row 5, column 2 of the geodetic grid\<close>
  "tile_3_5_2 =
     \<lparr>getLevelOfDetail = 3, tile_x = 2, tile_y = 5,
      getGeoExtent = \<lparr>xMin = Fin (- 135), yMin = Fin (- 45), xMax = Fin (- 225 / 2), yMax = Fin (- 45 / 2)\<rparr>\<rparr>"

definition tile_third :: TileKey where
  \<comment> \<open>a key whose extent is \<open>(1/3, 0, 1, 1)\<close>, \<open>1/3\<close> being the double nearest to it\<close>
  "tile_third =
     \<lparr>getLevelOfDetail = 0, tile_x = 0, tile_y = 0,
      getGeoExtent = \<lparr>xMin = round64 (1 / 3), yMin = Fin 0, xMax = Fin 1, yMax = Fin 1\<rparr>\<rparr>"


definition tile_10_5 :: TileKey where
  \<comment> \<open>a key whose extent is \<open>(-10, -5, 10, 5)\<close>\<close>
  "tile_10_5 =
     \<lparr>getLevelOfDetail = 0, tile_x = 0, tile_y = 0,
      getGeoExtent = \<lparr>xMin = Fin (- 10), yMin = Fin (- 5), xMax = Fin 10, yMax = Fin 5\<rparr>\<rparr>"

definition jpg_service :: "string \<Rightarrow> bool \<times> MapService" where
  \<comment> \<open>a tiled service that reports 256-pixel \<^verbatim>\<open>JPG\<close> tiles, for every URL\<close>
  "jpg_service u =
     (True, \<lparr>isTiled = True, getTileInfo = \<lparr>getTileSize = 256, getFormat = ''JPG''\<rparr>,
             getProfile = None, getError = []\<rparr>)"

definition tall :: Profile where
  \<comment> \<open>the extent \<open>(0, 0, 0.3, 1)\<close>, taller than wide; \<open>0.3\<close> is the double nearest to \<open>3/10\<close>\<close>
  "tall = Profile_create ''WGS84'' (Fin 0) (Fin 0) (round64 (3 / 10)) (Fin 1) 1 1"

definition tall_service :: "string \<Rightarrow> bool \<times> MapService" where
  \<comment> \<open>an export-only service that reports the profile \<open>tall\<close>\<close>
  "tall_service u =
     (True, \<lparr>isTiled = False, getTileInfo = \<lparr>getTileSize = 256, getFormat = ''png''\<rparr>,
             getProfile = Some tall, getError = []\<rparr>)"

definition tall_squared :: Profile where
  \<comment> \<open>the extent \<open>(-0.35, 0, 0.6499999999999999, 1)\<close>, as doubles\<close>
  "tall_squared =
     Profile_create ''WGS84'' (Fin (- 3152519739159347 / 9007199254740992)) (Fin 0)
       (Fin (1463669878895411 / 2251799813685248)) (Fin 1) 1 1"

definition tall_squared_twice :: Profile where
  \<comment> \<open>the extent \<open>(-0.35000000000000003, 0, 0.6499999999999999, 1)\<close>, as doubles\<close>
  "tall_squared_twice =
     Profile_create ''WGS84'' (Fin (- 6305039478318695 / 18014398509481984)) (Fin 0)
       (Fin (1463669878895411 / 2251799813685248)) (Fin 1) 1 1"

definition geodetic_squared :: Profile where
  "geodetic_squared =
     Profile_create ''WGS84'' (Fin (- 180)) (Fin (- 180)) (Fin 180) (Fin 180) 2 1"

definition upright :: Profile where
  \<comment> \<open>the geodetic extent turned by a quarter: \<open>(-90, -180, 90, 180)\<close>, one by two tiles\<close>
  "upright = Profile_create ''WGS84'' (Fin (- 90)) (Fin (- 180)) (Fin 90) (Fin 180) 1 2"

definition upright_squared :: Profile where
  "upright_squared =
     Profile_create ''WGS84'' (Fin (- 180)) (Fin (- 180)) (Fin 180) (Fin 180) 1 2"

definition upright_service :: "string \<Rightarrow> bool \<times> MapService" where
  \<comment> \<open>an export-only service that reports the profile \<open>upright\<close>\<close>
  "upright_service u =
     (True, \<lparr>isTiled = False, getTileInfo = \<lparr>getTileSize = 256, getFormat = ''png''\<rparr>,
             getProfile = Some upright, getError = []\<rparr>)"

definition square_service :: "string \<Rightarrow> bool \<times> MapService" where
  \<comment> \<open>an export-only service that reports the square profile \<open>geodetic_squared\<close>\<close>
  "square_service u =
     (True, \<lparr>isTiled = False, getTileInfo = \<lparr>getTileSize = 256, getFormat = ''png''\<rparr>,
             getProfile = Some geodetic_squared, getError = []\<rparr>)"

definition image_server :: "string \<Rightarrow> Options option \<Rightarrow> unit \<Rightarrow> string option" where
  \<comment> \<open>an HTTP collaborator that answers every URL with an image\<close>
  "image_server u opts progress = Some ''image''"

section \<open>Evaluating the arithmetic on numerals\<close>

lemma floor_rat_numeral: "\<lfloor>numeral a / numeral b :: rat\<rfloor> = numeral a div numeral b"
  by (metis floor_divide_of_int_eq of_int_numeral)

lemma floor_rat_one_numeral: "\<lfloor>1 / numeral b :: rat\<rfloor> = 1 div numeral b"
  by (metis floor_divide_of_int_eq of_int_1 of_int_numeral)

lemma ceiling_rat_numeral: "\<lceil>numeral a / numeral b :: rat\<rceil> = - (- numeral a div numeral b)"
  by (metis ceiling_def floor_divide_of_int_eq minus_divide_left of_int_minus of_int_numeral)

lemma ceiling_rat_one_numeral: "\<lceil>1 / numeral b :: rat\<rceil> = - (- 1 div numeral b)"
  by (metis ceiling_def floor_divide_of_int_eq minus_divide_left of_int_minus of_int_numeral of_int_1)

lemmas eval_round =
  round64_def round_magnitude_def ulp_exponent_def floor_log_def compute_floorlog
  round_half_even_def Let_def
  floor_rat_numeral floor_rat_one_numeral ceiling_rat_numeral ceiling_rat_one_numeral

lemmas eval_show =
  show_g_def show_exponent_def with_fraction_def strip_zeros_def show_nat.simps digit_char_def
  show_int_def

section \<open>Rounding\<close>

text \<open>
  \<open>floor_log 2\<close> is the binary exponent, and rounding a value that is already the
  result of a rounding changes nothing: the results of the operations are doubles.
\<close>

lemma floor_log_bounds_base:
  assumes "0 < a" and b: "1 < b"
  shows "rat_of_nat b powi floor_log b a \<le> a \<and> a < rat_of_nat b powi (floor_log b a + 1)"
proof (cases "1 \<le> a")
  case True
  define n where "n = nat \<lfloor>a\<rfloor>"
  define j where "j = floorlog b n"
  from True have n: "0 < n" "rat_of_nat n \<le> a" "a < rat_of_nat n + 1"
    unfolding n_def by simp_all linarith+
  from floorlog_bounds [of n b] n b have bd: "b ^ (j - 1) \<le> n" "n < b ^ j"
    by (simp_all add: j_def)
  from n b have j: "0 < j" by (simp add: j_def floorlog_def)
  have fl: "floor_log b a = int j - 1"
    using True by (simp add: floor_log_def j_def n_def)
  have p1: "rat_of_nat b powi (int j - 1) = rat_of_nat b ^ (j - 1)"
    using j by (simp add: power_int_def nat_diff_distrib')
  have p2: "rat_of_nat b powi (int j - 1 + 1) = rat_of_nat b ^ j"
    by simp
  from bd have "rat_of_nat (b ^ (j - 1)) \<le> rat_of_nat n" "rat_of_nat (n + 1) \<le> rat_of_nat (b ^ j)"
    by (simp_all only: of_nat_le_iff)
  then have "rat_of_nat b ^ (j - 1) \<le> rat_of_nat n" "rat_of_nat n + 1 \<le> rat_of_nat b ^ j"
    by simp_all
  with n show ?thesis unfolding fl p1 p2 by linarith
next
  case False
  define c where "c = 1 / a"
  define n where "n = nat (\<lceil>c\<rceil> - 1)"
  define j where "j = floorlog b n"
  from False assms have c: "1 < c" by (simp add: c_def)
  then have "2 \<le> \<lceil>c\<rceil>" by linarith
  then have n: "0 < n" "rat_of_nat n < c" "c \<le> rat_of_nat n + 1"
    unfolding n_def by simp_all linarith+
  from floorlog_bounds [of n b] n b have bd: "b ^ (j - 1) \<le> n" "n < b ^ j"
    by (simp_all add: j_def)
  from n b have j: "0 < j" by (simp add: j_def floorlog_def)
  have fl: "floor_log b a = - int j"
    using False by (simp add: floor_log_def j_def n_def c_def)
  from bd have "rat_of_nat (b ^ (j - 1)) \<le> rat_of_nat n" "rat_of_nat (n + 1) \<le> rat_of_nat (b ^ j)"
    by (simp_all only: of_nat_le_iff)
  then have "rat_of_nat b ^ (j - 1) \<le> rat_of_nat n" "rat_of_nat n + 1 \<le> rat_of_nat b ^ j"
    by simp_all
  with n have cb: "rat_of_nat b ^ (j - 1) < c" "c \<le> rat_of_nat b ^ j" by linarith+
  have a: "a = 1 / c" by (simp add: c_def)
  have bp: "0 < rat_of_nat b ^ (j - 1)" using b by simp
  have p1: "rat_of_nat b powi (- int j) = 1 / rat_of_nat b ^ j"
    by (simp add: power_int_minus_divide)
  have "rat_of_nat b powi (- int j + 1) = rat_of_nat b powi (- (int (j - 1)))"
    using j by simp
  then have p2: "rat_of_nat b powi (- int j + 1) = 1 / rat_of_nat b ^ (j - 1)"
    by (simp add: power_int_minus_divide)
  from cb c bp have "1 / rat_of_nat b ^ j \<le> 1 / c" "1 / c < 1 / rat_of_nat b ^ (j - 1)"
    by (simp_all add: frac_le frac_less2)
  then have "1 / rat_of_nat b ^ j \<le> a" "a < 1 / rat_of_nat b ^ (j - 1)"
    by (simp_all only: a)
  then show ?thesis unfolding fl p1 p2 by simp
qed

lemma floor_log_bounds:
  assumes "0 < a"
  shows "2 powi floor_log 2 a \<le> a \<and> a < 2 powi (floor_log 2 a + 1)"
  using floor_log_bounds_base [OF assms, of 2] by simp

lemma floor_log_bounds_10:
  assumes "0 < a"
  shows "10 powi floor_log 10 a \<le> a \<and> a < 10 powi (floor_log 10 a + 1)"
  using floor_log_bounds_base [OF assms, of 10] by simp

lemma round_half_even_of_int: "round_half_even (of_int n) = n"
  by (simp add: round_half_even_def)

lemma round_half_even_nonneg: "0 \<le> x \<Longrightarrow> 0 \<le> round_half_even x"
  by (auto simp add: round_half_even_def Let_def)

lemma round_half_even_le: "x \<le> of_int N \<Longrightarrow> round_half_even x \<le> N"
proof -
  assume x: "x \<le> of_int N"
  show ?thesis
  proof (cases "x = of_int N")
    case True then show ?thesis by (simp add: round_half_even_of_int)
  next
    case False
    with x have "x < of_int N" by simp
    then have "\<lfloor>x\<rfloor> < N" by (simp add: floor_less_iff)
    then show ?thesis by (auto simp add: round_half_even_def Let_def)
  qed
qed


lemma powi_2_pos: "0 < (2::rat) powi k"
  by simp

lemma powi_2_less_imp: "(2::rat) powi k < 2 powi l \<Longrightarrow> k < l"
proof (rule ccontr)
  assume lt: "(2::rat) powi k < 2 powi l" and "\<not> k < l"
  then have "l \<le> k" by simp
  then have "(2::rat) powi l \<le> 2 powi k" by (intro power_int_increasing) simp_all
  with lt show False by simp
qed

lemma powi_2_diff: "(2::rat) powi (k - l) = 2 powi k / 2 powi l"
  by (simp add: power_int_diff)

lemma powi_2_nonneg_int: "0 \<le> k \<Longrightarrow> (2::rat) powi k = of_int (2 ^ nat k)"
  by (simp add: power_int_def)

lemma floor_log_unique:
  assumes "(2::rat) powi k \<le> a" "a < 2 powi (k + 1)"
  shows "floor_log 2 a = k"
proof -
  have a: "0 < a" using assms(1) powi_2_pos [of k] by linarith
  from floor_log_bounds [OF a]
  have b: "2 powi floor_log 2 a \<le> a" "a < 2 powi (floor_log 2 a + 1)" by simp_all
  from b(1) assms(2) have "(2::rat) powi floor_log 2 a < 2 powi (k + 1)" by linarith
  then have 1: "floor_log 2 a < k + 1" by (rule powi_2_less_imp)
  from assms(1) b(2) have "(2::rat) powi k < 2 powi (floor_log 2 a + 1)" by linarith
  then have 2: "k < floor_log 2 a + 1" by (rule powi_2_less_imp)
  from 1 2 show ?thesis by simp
qed

lemma round_magnitude_of_int_ulp:
  assumes "a / 2 powi ulp_exponent a = of_int N"
  shows "round_magnitude a = a"
proof -
  have "round_magnitude a = of_int N * 2 powi ulp_exponent a"
    by (simp add: round_magnitude_def assms round_half_even_of_int)
  also have "\<dots> = a / 2 powi ulp_exponent a * 2 powi ulp_exponent a"
    by (simp only: assms)
  also have "\<dots> = a" by simp
  finally show ?thesis .
qed

lemma round_magnitude_idem:
  assumes a: "0 < a" and nz: "round_magnitude a \<noteq> 0"
  shows "round_magnitude (round_magnitude a) = round_magnitude a"
proof -
  define e where "e = ulp_exponent a"
  define n where "n = round_half_even (a / 2 powi e)"
  define M where "M = round_magnitude a"
  have M: "M = of_int n * 2 powi e"
    by (simp add: M_def round_magnitude_def n_def e_def)
  have e1: "- 1074 \<le> e" and e2: "floor_log 2 a - 52 \<le> e"
    by (simp_all add: e_def ulp_exponent_def)
  from floor_log_bounds [OF a] have "a < 2 powi (floor_log 2 a + 1)" by simp
  also have "(2::rat) powi (floor_log 2 a + 1) \<le> 2 powi (53 + e)"
    using e2 by (intro power_int_increasing) simp_all
  finally have "a / 2 powi e < 2 powi (53 + e) / 2 powi e"
    by (simp add: divide_strict_right_mono)
  also have "\<dots> = 2 powi 53" by (simp add: power_int_add)
  finally have "a / 2 powi e \<le> of_int (2 ^ 53)" by simp
  then have n_le: "n \<le> 2 ^ 53" unfolding n_def by (rule round_half_even_le)
  have "0 \<le> a / 2 powi e" using a by simp
  then have "0 \<le> n" unfolding n_def by (rule round_half_even_nonneg)
  moreover have "n \<noteq> 0" using nz M by (auto simp add: M_def)
  ultimately have n_pos: "0 < n" by simp
  have M_pos: "0 < M" unfolding M using n_pos by simp
  define e' where "e' = ulp_exponent M"
  have "\<exists>N. M / 2 powi e' = of_int N"
  proof (cases "n < 2 ^ 53")
    case True
    then have "rat_of_int n < of_int (2 ^ 53)" by (simp only: of_int_less_iff)
    then have "M < 2 powi 53 * 2 powi e" unfolding M by simp
    then have "M < 2 powi (53 + e)" by (simp add: power_int_add)
    with floor_log_bounds [OF M_pos] have "(2::rat) powi floor_log 2 M < 2 powi (53 + e)"
      by linarith
    then have "floor_log 2 M < 53 + e" by (rule powi_2_less_imp)
    with e1 have le: "e' \<le> e" by (simp add: e'_def ulp_exponent_def)
    have "M / 2 powi e' = of_int n * 2 powi (e - e')"
      unfolding M by (simp add: powi_2_diff)
    also have "\<dots> = of_int (n * 2 ^ nat (e - e'))"
      using le by (simp add: powi_2_nonneg_int)
    finally show ?thesis by blast
  next
    case False
    with n_le have n: "n = 2 ^ 53" by simp
    have M2: "M = 2 powi (53 + e)" unfolding M n by (simp add: power_int_add)
    have "floor_log 2 M = 53 + e"
    proof (rule floor_log_unique)
      show "(2::rat) powi (53 + e) \<le> M" by (simp add: M2)
      show "M < 2 powi (53 + e + 1)" unfolding M2 by (intro power_int_strict_increasing) simp_all
    qed
    with e1 have e': "e' = e + 1" by (simp add: e'_def ulp_exponent_def)
    have "M / 2 powi e' = 2 powi (53 + e - (e + 1))"
      unfolding M2 e' by (simp only: powi_2_diff)
    also have "\<dots> = of_int (2 ^ 52)" by simp
    finally show ?thesis by blast
  qed
  then obtain N where "M / 2 powi ulp_exponent M = of_int N" unfolding e'_def by blast
  then have "round_magnitude M = M" by (rule round_magnitude_of_int_ulp)
  then show ?thesis by (simp add: M_def)
qed

lemma round_magnitude_nonneg: "0 \<le> a \<Longrightarrow> 0 \<le> round_magnitude a"
  by (simp add: round_magnitude_def round_half_even_nonneg)

lemma round64_idem:
  assumes "round64 v = Fin r"
  shows "round64 r = Fin r"
proof (cases "v = 0")
  case True
  with assms show ?thesis by (simp add: round64_def)
next
  case False
  define M where "M = round_magnitude \<bar>v\<bar>"
  from False have M0: "0 \<le> M" unfolding M_def by (intro round_magnitude_nonneg) simp
  show ?thesis
  proof (cases "M = 0")
    case True
    with assms False have "r = 0"
      by (auto simp add: round64_def M_def split: if_splits)
    then show ?thesis by (simp add: round64_def)
  next
    case nz: False
    from assms False nz have big: "\<not> 2 ^ 1024 \<le> M" and r: "r = (if v < 0 then - M else M)"
      by (auto simp add: round64_def M_def split: if_splits)
    from nz M0 have Mp: "0 < M" by simp
    have idem: "round_magnitude M = M"
      unfolding M_def using False nz by (intro round_magnitude_idem) (simp_all add: M_def)
    from r Mp have abs: "\<bar>r\<bar> = M" and sgn: "r < 0 \<longleftrightarrow> v < 0" and rnz: "r \<noteq> 0"
      by (auto split: if_splits)
    have "round64 r = Fin (if r < 0 then - M else M)"
      using big nz rnz by (simp add: round64_def abs idem)
    also have "\<dots> = Fin r"
      using r sgn by simp
    finally show ?thesis .
  qed
qed

section \<open>Decimal digits\<close>

lemma digit_value_digit_char: "d < 10 \<Longrightarrow> digit_value (digit_char d) = d"
proof -
  assume "d < 10"
  then have "d \<in> {0, 1, 2, 3, 4, 5, 6, 7, 8, 9}" by auto
  then show ?thesis
    by (auto simp add: digit_char_def digit_value_def)
qed

lemma is_digit_digit_char: "d < 10 \<Longrightarrow> is_digit (digit_char d)"
proof -
  assume "d < 10"
  then have "d \<in> {0, 1, 2, 3, 4, 5, 6, 7, 8, 9}" by auto
  then show ?thesis
    by (auto simp add: digit_char_def is_digit_def)
qed

lemma foldl_digits:
  "foldl (\<lambda>v c. 10 * v + digit_value c) v ys
     = v * 10 ^ length ys + foldl (\<lambda>v c. 10 * v + digit_value c) 0 ys"
proof (induction ys arbitrary: v)
  case Nil
  then show ?case by simp
next
  case (Cons y ys)
  show ?case
    using Cons.IH [of "10 * v + digit_value y"] Cons.IH [of "digit_value y"]
    by (simp add: algebra_simps)
qed

lemma digits_value_append:
  "digits_value (xs @ ys) = digits_value xs * 10 ^ length ys + digits_value ys"
  unfolding digits_value_def by (simp add: foldl_digits [of "foldl _ _ xs"])

lemma digits_value_single: "digits_value [c] = digit_value c"
  by (simp add: digits_value_def)

lemma show_nat_small: "n < 10 \<Longrightarrow> show_nat n = [digit_char n]"
  by (subst show_nat.simps) simp

lemma show_nat_large: "\<not> n < 10 \<Longrightarrow> show_nat n = show_nat (n div 10) @ [digit_char (n mod 10)]"
  by (subst show_nat.simps) simp

lemma digits_value_show_nat: "digits_value (show_nat n) = n"
proof (induction n rule: show_nat.induct)
  case (1 n)
  show ?case
  proof (cases "n < 10")
    case True
    then show ?thesis
      by (simp add: show_nat_small digits_value_single digit_value_digit_char)
  next
    case False
    with 1 have "digits_value (show_nat (n div 10)) = n div 10" by simp
    with False show ?thesis
      by (simp add: show_nat_large digits_value_append digits_value_single digit_value_digit_char)
  qed
qed

lemma is_digit_show_nat: "c \<in> set (show_nat n) \<Longrightarrow> is_digit c"
proof (induction n rule: show_nat.induct)
  case (1 n)
  show ?case
  proof (cases "n < 10")
    case True
    with 1(2) show ?thesis by (simp add: show_nat_small is_digit_digit_char)
  next
    case False
    with 1(2) have "c \<in> set (show_nat (n div 10)) \<or> c = digit_char (n mod 10)"
      by (auto simp add: show_nat_large)
    with 1(1) False show ?thesis by (auto simp add: is_digit_digit_char)
  qed
qed

lemma length_show_nat_ge: "10 ^ k \<le> n \<Longrightarrow> k < length (show_nat n)"
proof (induction k arbitrary: n)
  case 0
  show ?case by (cases "n < 10") (simp_all add: show_nat_small show_nat_large)
next
  case (Suc k)
  have "(10::nat) \<le> 10 ^ Suc k" by simp
  with Suc.prems have n1: "\<not> n < 10" by linarith
  from Suc.prems have n2: "10 ^ k \<le> n div 10"
    by (simp add: less_eq_div_iff_mult_less_eq mult.commute)
  from Suc.IH [OF n2] n1 show ?case by (simp add: show_nat_large)
qed

lemma length_show_nat_le: "n < 10 ^ Suc k \<Longrightarrow> length (show_nat n) \<le> Suc k"
proof (induction k arbitrary: n)
  case 0
  then show ?case by (simp add: show_nat_small)
next
  case (Suc k)
  show ?case
  proof (cases "n < 10")
    case True
    then show ?thesis by (simp add: show_nat_small)
  next
    case False
    from Suc.prems have "n div 10 < 10 ^ Suc k"
      by (simp add: div_less_iff_less_mult mult.commute)
    from Suc.IH [OF this] False show ?thesis by (simp add: show_nat_large)
  qed
qed

lemma length_show_nat: "10 ^ k \<le> n \<Longrightarrow> n < 10 ^ Suc k \<Longrightarrow> length (show_nat n) = Suc k"
  using length_show_nat_ge [of k n] length_show_nat_le [of n k] by simp

lemma digits_value_zeros: "digits_value (replicate k CHR ''0'') = 0"
  by (induction k) (simp_all add: digits_value_def digit_value_def)

lemma digits_value_Cons_zero: "digits_value (CHR ''0'' # ds) = digits_value ds"
  using digits_value_append [of "''0''" ds] by (simp add: digits_value_single digit_value_def)

lemma strip_zeros_decomp: "\<exists>k. fs = strip_zeros fs @ replicate k CHR ''0''"
proof -
  let ?P = "\<lambda>c. c = CHR ''0''"
  have "rev fs = takeWhile ?P (rev fs) @ dropWhile ?P (rev fs)" by simp
  then have "fs = rev (dropWhile ?P (rev fs)) @ rev (takeWhile ?P (rev fs))"
    by (metis rev_append rev_rev_ident)
  moreover have "\<forall>c\<in>set (rev (takeWhile ?P (rev fs))). c = CHR ''0''"
    by (auto dest: set_takeWhileD)
  then have "rev (takeWhile ?P (rev fs)) = replicate (length (rev (takeWhile ?P (rev fs)))) CHR ''0''"
    by (intro replicate_length_same [symmetric]) 
  ultimately show ?thesis unfolding strip_zeros_def by metis
qed

lemma fraction_value_zeros: "fraction_value (fs @ replicate k CHR ''0'') = fraction_value fs"
  by (simp add: fraction_value_def digits_value_append digits_value_zeros power_add)

lemma fraction_value_strip_zeros: "fraction_value (strip_zeros fs) = fraction_value fs"
proof -
  from strip_zeros_decomp obtain k where "fs = strip_zeros fs @ replicate k CHR ''0''" by blast
  then have "fraction_value fs = fraction_value (strip_zeros fs @ replicate k CHR ''0'')" by simp
  then show ?thesis by (simp only: fraction_value_zeros)
qed

lemma set_strip_zeros: "set (strip_zeros fs) \<subseteq> set fs"
  unfolding strip_zeros_def by (auto dest: set_dropWhileD)

lemma is_digit_not_point: "is_digit c \<Longrightarrow> c \<noteq> CHR ''.'' \<and> c \<noteq> CHR ''e'' \<and> c \<noteq> CHR ''-''"
  by (auto simp add: is_digit_def)

lemma takeWhile_all: "\<forall>c\<in>set xs. P c \<Longrightarrow> takeWhile P xs = xs"
  by (simp add: takeWhile_eq_all_conv)

lemma dropWhile_all: "\<forall>c\<in>set xs. P c \<Longrightarrow> dropWhile P xs = []"
  by simp

lemma mantissa_value_with_fraction:
  assumes ip: "\<forall>c\<in>set ip. is_digit c"
  shows "mantissa_value (with_fraction ip fp) = of_nat (digits_value ip) + fraction_value fp"
proof -
  from ip have np: "\<forall>c\<in>set ip. c \<noteq> CHR ''.''" using is_digit_not_point by blast
  show ?thesis
  proof (cases "strip_zeros fp = []")
    case True
    then have "fraction_value fp = 0"
      using fraction_value_strip_zeros [of fp] by (simp add: fraction_value_def digits_value_def)
    with True show ?thesis
      by (simp add: with_fraction_def mantissa_value_def takeWhile_all [OF np] dropWhile_all [OF np])
         (simp add: fraction_value_def digits_value_def)
  next
    case False
    have "takeWhile (\<lambda>c. c \<noteq> CHR ''.'') (ip @ CHR ''.'' # strip_zeros fp) = ip"
      using np by (simp add: takeWhile_append2)
    moreover have "dropWhile (\<lambda>c. c \<noteq> CHR ''.'') (ip @ CHR ''.'' # strip_zeros fp) = CHR ''.'' # strip_zeros fp"
      using np by (simp add: dropWhile_append2)
    ultimately show ?thesis
      using False by (simp add: with_fraction_def mantissa_value_def fraction_value_strip_zeros)
  qed
qed

lemma set_with_fraction:
  "set (with_fraction ip fp) \<subseteq> set ip \<union> {CHR ''.''} \<union> set fp"
  using set_strip_zeros [of fp] by (auto simp add: with_fraction_def Let_def)

lemma unsigned_value_fixed:
  assumes "\<forall>c\<in>set s. c \<noteq> CHR ''e''"
  shows "unsigned_value s = mantissa_value s"
  by (simp add: unsigned_value_def exponent_value_def takeWhile_all [OF assms] dropWhile_all [OF assms])

lemma exponent_value_show_exponent:
  "exponent_value (drop 1 (show_exponent X)) = X"
proof -
  have "digits_value (if length (show_nat (nat \<bar>X\<bar>)) < 2 then CHR ''0'' # show_nat (nat \<bar>X\<bar>)
      else show_nat (nat \<bar>X\<bar>)) = nat \<bar>X\<bar>"
    by (simp add: digits_value_Cons_zero digits_value_show_nat)
  then show ?thesis
    by (simp add: show_exponent_def Let_def exponent_value_def)
qed

lemma unsigned_value_scientific:
  assumes "\<forall>c\<in>set m. c \<noteq> CHR ''e''"
  shows "unsigned_value (m @ show_exponent X) = mantissa_value m * 10 powi X"
proof -
  define r where "r = drop 1 (show_exponent X)"
  have e: "show_exponent X = CHR ''e'' # r"
    by (simp add: r_def show_exponent_def Let_def)
  have x: "exponent_value r = X"
    unfolding r_def by (rule exponent_value_show_exponent)
  have "takeWhile (\<lambda>c. c \<noteq> CHR ''e'') (m @ CHR ''e'' # r) = m"
    using assms by (simp add: takeWhile_append2)
  moreover have "dropWhile (\<lambda>c. c \<noteq> CHR ''e'') (m @ CHR ''e'' # r) = CHR ''e'' # r"
    using assms by (simp add: dropWhile_append2)
  ultimately show ?thesis
    unfolding e by (simp add: unsigned_value_def x)
qed

lemma split_digits_value:
  "k \<le> length ds \<Longrightarrow>
   rat_of_nat (digits_value (take k ds)) + fraction_value (drop k ds)
     = rat_of_nat (digits_value ds) / 10 ^ (length ds - k)"
proof -
  assume k: "k \<le> length ds"
  have "digits_value ds = digits_value (take k ds @ drop k ds)" by simp
  also have "\<dots> = digits_value (take k ds) * 10 ^ (length ds - k) + digits_value (drop k ds)"
    by (simp only: digits_value_append length_drop)
  finally show ?thesis
    by (simp add: fraction_value_def add_divide_distrib)
qed

lemma round_half_even_ge: "of_int N \<le> x \<Longrightarrow> N \<le> round_half_even x"
proof -
  assume "of_int N \<le> x"
  then have "N \<le> \<lfloor>x\<rfloor>" by (simp add: le_floor_iff)
  then show ?thesis by (auto simp add: round_half_even_def Let_def)
qed

lemma round_half_even_near: "\<bar>of_int (round_half_even x) - x\<bar> \<le> 1 / 2"
proof -
  have "of_int \<lfloor>x\<rfloor> \<le> x" "x < of_int \<lfloor>x\<rfloor> + 1" by linarith+
  then show ?thesis
    by (auto simp add: round_half_even_def Let_def abs_le_iff)
qed

lemma powi_10_neg: "0 \<le> k \<Longrightarrow> (10::rat) powi (- k) = 1 / 10 ^ nat k"
  by (simp add: power_int_minus_divide power_int_def power_one_over)

lemma powi_10_pos: "0 \<le> k \<Longrightarrow> (10::rat) powi k = 10 ^ nat k"
  by (simp add: power_int_def)

lemma with_fraction_prefix: "\<exists>t. with_fraction ip fp = ip @ t"
  by (simp add: with_fraction_def Let_def)

lemma decimal_value_unsigned:
  assumes "s = c # r" "is_digit c"
  shows "decimal_value s = unsigned_value s"
  using assms is_digit_not_point [of c] by (simp add: decimal_value_def)

lemma show_g_value:
  fixes P :: nat and a :: rat
  assumes a: "0 < a"
  defines "p \<equiv> (if P = 0 then 1 else P)"
  defines "X0 \<equiv> floor_log 10 a"
  defines "n0 \<equiv> round_half_even (a / 10 powi (X0 - (int p - 1)))"
  shows "unsigned_value (show_g P a) = rat_of_int n0 * 10 powi (X0 - (int p - 1))"
    and "\<exists>c r. show_g P a = c # r \<and> is_digit c"
proof -
  define x where "x = a / 10 powi (X0 - (int p - 1))"
  define n where "n = (if n0 = 10 ^ p then 10 ^ (p - 1) else n0)"
  define X where "X = (if n0 = 10 ^ p then X0 + 1 else X0)"
  define ds where "ds = show_nat (nat n)"
  have p: "0 < p" by (simp add: p_def)
  from floor_log_bounds_10 [OF a]
  have b: "10 powi X0 \<le> a" "a < 10 powi (X0 + 1)" by (simp_all add: X0_def)
  have x_eq: "x = a * 10 powi (int p - 1 - X0)"
    unfolding x_def by (simp add: power_int_diff field_simps)
  have "10 powi X0 * 10 powi (int p - 1 - X0) \<le> x"
    unfolding x_eq using b(1) by (intro mult_right_mono) simp_all
  then have xl: "of_int (10 ^ (p - 1)) \<le> x"
    using p by (simp add: power_int_add [symmetric] powi_10_pos nat_diff_distrib')
  have "x < 10 powi (X0 + 1) * 10 powi (int p - 1 - X0)"
    unfolding x_eq using b(2) by (intro mult_strict_right_mono) simp_all
  then have xu: "x \<le> of_int (10 ^ p)"
    by (simp add: power_int_add [symmetric])
  have n0: "10 ^ (p - 1) \<le> n0" "n0 \<le> 10 ^ p"
    unfolding n0_def x_def [symmetric] using xl xu
    by (auto intro: round_half_even_ge round_half_even_le)
  have pp: "(10::int) ^ (p - 1) < 10 ^ p" using p by simp
  from n0 pp have n: "10 ^ (p - 1) \<le> n" "n < 10 ^ p"
    by (auto simp add: n_def)
  have V: "rat_of_int n * 10 powi (X - (int p - 1)) = rat_of_int n0 * 10 powi (X0 - (int p - 1))"
  proof (cases "n0 = 10 ^ p")
    case True
    have e1: "rat_of_int (10 ^ p) = 10 * rat_of_int (10 ^ (p - 1))"
      using p by (cases p) simp_all
    have e2: "(10::rat) powi (X0 + 1 - (int p - 1)) = 10 * 10 powi (X0 - (int p - 1))"
    proof -
      have "(10::rat) powi (X0 + 1 - (int p - 1)) = 10 powi ((X0 - (int p - 1)) + 1)"
        by (simp add: algebra_simps)
      also have "\<dots> = 10 powi (X0 - (int p - 1)) * 10 powi 1"
        by (subst power_int_add) simp_all
      finally show ?thesis by simp
    qed
    have "rat_of_int n * 10 powi (X - (int p - 1))
        = rat_of_int (10 ^ (p - 1)) * (10 * 10 powi (X0 - (int p - 1)))"
      using True by (simp only: n_def X_def refl if_True e2)
    also have "\<dots> = rat_of_int (10 ^ p) * 10 powi (X0 - (int p - 1))"
      by (simp only: e1)
    finally show ?thesis by (simp only: True)
  next
    case False
    then show ?thesis by (simp add: n_def X_def)
  qed
  from n have nn: "10 ^ (p - 1) \<le> nat n" "nat n < 10 ^ Suc (p - 1)"
    using p by (simp_all add: le_nat_iff nat_less_iff)
  have len: "length ds = p"
    unfolding ds_def using length_show_nat [OF nn] p by simp
  have dv: "rat_of_nat (digits_value ds) = of_int n"
  proof -
    have "(0::int) < 10 ^ (p - 1)" by simp
    with n(1) have "0 \<le> n" by linarith
    then show ?thesis unfolding ds_def by (simp add: digits_value_show_nat)
  qed
  have dig: "\<forall>c\<in>set ds. is_digit c"
    unfolding ds_def using is_digit_show_nat by blast
  have pw: "(10::rat) powi (int p - 1) = 10 ^ (p - 1)"
    using p by (simp add: powi_10_pos nat_diff_distrib')
  have sg: "show_g P a =
      (if X < - 4 \<or> int p \<le> X then with_fraction (take 1 ds) (drop 1 ds) @ show_exponent X
       else if 0 \<le> X then with_fraction (take (nat X + 1) ds) (drop (nat X + 1) ds)
       else with_fraction ''0'' (replicate (nat (- X - 1)) CHR ''0'' @ ds))"
    unfolding show_g_def Let_def ds_def n_def X_def n0_def X0_def p_def by (rule refl)
  have noe: "\<forall>c\<in>set (with_fraction ip fp). c \<noteq> CHR ''e''"
    if "\<forall>c\<in>set ip. is_digit c" "\<forall>c\<in>set fp. is_digit c" for ip fp
    using that set_with_fraction [of ip fp] is_digit_not_point by fastforce
  have dtake: "\<forall>c\<in>set (take k ds). is_digit c" and ddrop: "\<forall>c\<in>set (drop k ds). is_digit c" for k
    using dig by (auto dest: in_set_takeD in_set_dropD)
  have split: "mantissa_value (with_fraction (take k ds) (drop k ds)) = rat_of_int n / 10 ^ (p - k)"
    if "k \<le> p" for k
    using that by (simp add: mantissa_value_with_fraction [OF dtake] split_digits_value len dv)
  show "unsigned_value (show_g P a) = rat_of_int n0 * 10 powi (X0 - (int p - 1))"
  proof (cases "X < - 4 \<or> int p \<le> X")
    case True
    have "unsigned_value (show_g P a) = rat_of_int n / 10 ^ (p - 1) * 10 powi X"
      using True p by (simp add: sg unsigned_value_scientific [OF noe [OF dtake ddrop]] split)
    also have "\<dots> = rat_of_int n * 10 powi (X - (int p - 1))"
      by (simp add: power_int_diff pw)
    finally show ?thesis by (simp only: V)
  next
    case False
    show ?thesis
    proof (cases "0 \<le> X")
      case True
      with False have k: "Suc (nat X) \<le> p" by linarith
      have "unsigned_value (show_g P a) = rat_of_int n / 10 ^ (p - Suc (nat X))"
        using True False by (simp add: sg unsigned_value_fixed [OF noe [OF dtake ddrop]] split [OF k])
      also have "\<dots> = rat_of_int n * 10 powi (X - (int p - 1))"
      proof -
        have e: "nat (int p - 1 - X) = p - Suc (nat X)" using True k by linarith
        have "0 \<le> int p - 1 - X" using True k by linarith
        from powi_10_neg [OF this]
        have "(10::rat) powi (- (int p - 1 - X)) = 1 / 10 ^ (p - Suc (nat X))"
          by (simp only: e)
        moreover have "- (int p - 1 - X) = X - (int p - 1)" by simp
        ultimately have "(10::rat) powi (X - (int p - 1)) = 1 / 10 ^ (p - Suc (nat X))"
          by (simp only:)
        then show ?thesis by (simp only:) simp
      qed
      finally show ?thesis by (simp only: V)
    next
      case neg: False
      let ?z = "replicate (nat (- X - 1)) CHR ''0''"
      have z0: "is_digit CHR ''0''" by (simp add: is_digit_def)
      then have z: "\<forall>c\<in>set ''0''. is_digit c" "\<forall>c\<in>set (?z @ ds). is_digit c"
        using dig by auto
      have s1: "show_g P a = with_fraction ''0'' (?z @ ds)"
        using neg False by (simp add: sg)
      have "unsigned_value (show_g P a) = mantissa_value (with_fraction ''0'' (?z @ ds))"
        unfolding s1 by (rule unsigned_value_fixed [OF noe [OF z]])
      also have "\<dots> = rat_of_nat (digits_value ''0'') + fraction_value (?z @ ds)"
        by (rule mantissa_value_with_fraction [OF z(1)])
      also have "\<dots> = fraction_value (?z @ ds)"
        by (simp add: digits_value_single digit_value_def)
      also have "\<dots> = rat_of_int n / 10 ^ (nat (- X - 1) + p)"
        by (simp add: fraction_value_def digits_value_append digits_value_zeros len dv)
      also have "\<dots> = rat_of_int n * 10 powi (X - (int p - 1))"
      proof -
        have e: "nat (int p - 1 - X) = nat (- X - 1) + p" using neg p by linarith
        have "0 \<le> int p - 1 - X" using neg p by linarith
        from powi_10_neg [OF this]
        have "(10::rat) powi (- (int p - 1 - X)) = 1 / 10 ^ (nat (- X - 1) + p)"
          by (simp only: e)
        moreover have "- (int p - 1 - X) = X - (int p - 1)" by simp
        ultimately have "(10::rat) powi (X - (int p - 1)) = 1 / 10 ^ (nat (- X - 1) + p)"
          by (simp only:)
        then show ?thesis by (simp only:) simp
      qed
      finally show ?thesis by (simp only: V)
    qed
  qed
  from len p obtain d dr where d: "ds = d # dr" by (cases ds) auto
  with dig have "is_digit d" by simp
  with d have "\<exists>t. show_g P a = d # t \<or> show_g P a = CHR ''0'' # t"
    using with_fraction_prefix [of "take 1 ds" "drop 1 ds"]
      with_fraction_prefix [of "take (nat X + 1) ds" "drop (nat X + 1) ds"]
      with_fraction_prefix [of "''0''" "replicate (nat (- X - 1)) CHR ''0'' @ ds"]
    by (auto simp add: sg)
  moreover have "is_digit CHR ''0''" by (simp add: is_digit_def)
  ultimately show "\<exists>c r. show_g P a = c # r \<and> is_digit c"
    using \<open>is_digit d\<close> by blast
qed

lemma powi_10_diff: "(10::rat) powi (k - l) = 10 powi k / 10 powi l"
  by (simp add: power_int_diff)

lemma show_g_half_unit:
  fixes P :: nat and a :: rat
  assumes a: "0 < a"
  shows "\<bar>unsigned_value (show_g P a) - a\<bar> \<le> half_unit (if P = 0 then 1 else P) a"
proof -
  define p where "p = (if P = 0 then 1 else P)"
  define X0 where "X0 = floor_log 10 a"
  define u :: rat where "u = 10 powi (X0 - (int p - 1))"
  define n0 where "n0 = round_half_even (a / u)"
  have u: "0 < u" by (simp add: u_def)
  have v: "unsigned_value (show_g P a) = rat_of_int n0 * u"
    unfolding n0_def u_def X0_def p_def by (rule show_g_value(1) [OF a])
  have "rat_of_int n0 * u - a = (rat_of_int n0 - a / u) * u"
    using u by (simp add: field_simps)
  then have "\<bar>rat_of_int n0 * u - a\<bar> = \<bar>rat_of_int n0 - a / u\<bar> * \<bar>u\<bar>"
    by (simp only: abs_mult)
  also have "\<dots> = \<bar>rat_of_int n0 - a / u\<bar> * u"
    using u by (simp only: abs_of_pos)
  also have "\<dots> \<le> 1 / 2 * u"
    unfolding n0_def using u by (intro mult_right_mono round_half_even_near) simp
  finally have h: "\<bar>rat_of_int n0 * u - a\<bar> \<le> u / 2" by simp
  have "half_unit p a = u / 2"
    using a by (simp add: half_unit_def u_def X0_def)
  with h show ?thesis unfolding v p_def by simp
qed

lemma decimal_value_show_g:
  fixes P :: nat and a :: rat
  assumes "0 < a"
  shows "decimal_value (show_g P a) = unsigned_value (show_g P a)"
proof -
  from show_g_value(2) [OF assms] obtain c r where "show_g P a = c # r" "is_digit c" by blast
  then show ?thesis by (rule decimal_value_unsigned)
qed

lemma decimal_value_zero: "decimal_value ''0'' = 0" "decimal_value ''-0'' = 0"
  by (simp_all add: decimal_value_def unsigned_value_def mantissa_value_def fraction_value_def
      exponent_value_def digits_value_def digit_value_def)

lemma show_double_half_unit:
  assumes "is_finite c"
  shows "\<bar>decimal_value (show_double P c) - valof c\<bar>
           \<le> half_unit (if P = 0 then 1 else P) (valof c)"
proof (cases c)
  case (Fin q)
  consider "q = 0" | "0 < q" | "q < 0" by linarith
  then show ?thesis
  proof cases
    case 1
    with Fin show ?thesis by (simp add: valof_def decimal_value_zero half_unit_def)
  next
    case 2
    with Fin show_g_half_unit [OF 2, of P] show ?thesis
      by (simp add: valof_def decimal_value_show_g)
  next
    case 3
    then have q: "0 < - q" by simp
    have "decimal_value (show_double P c) = - unsigned_value (show_g P (- q))"
      using Fin 3 by (simp add: decimal_value_def)
    moreover have "half_unit (if P = 0 then 1 else P) (- q) = half_unit (if P = 0 then 1 else P) q"
      by (simp add: half_unit_def)
    ultimately show ?thesis
      using Fin 3 show_g_half_unit [OF q, of P] by (simp add: valof_def)
  qed
next
  case NegZero
  then show ?thesis by (simp add: valof_def decimal_value_zero half_unit_def)
qed (use assms in simp_all)

section \<open>Arithmetic on finite doubles\<close>

lemma deq_not_dless: "deq x y \<Longrightarrow> \<not> dless x y \<and> \<not> dless y x"
  by (cases x; cases y) simp_all

lemma is_finite_cases: "is_finite x \<longleftrightarrow> (\<exists>q. x = Fin q) \<or> x = NegZero"
  by (cases x) simp_all

lemma is_finite_dneg: "is_finite (dneg x) = is_finite x"
  by (cases x) simp_all

lemma valof_dneg: "valof (dneg x) = - valof x"
  by (cases x) (simp_all add: valof_def)

lemma is_finite_round64_valof: "is_finite (round64 v) \<Longrightarrow> round64 (valof (round64 v)) = round64 v \<or> round64 v = NegZero"
proof -
  assume "is_finite (round64 v)"
  then consider q where "round64 v = Fin q" | "round64 v = NegZero"
    by (auto simp add: is_finite_cases)
  then show ?thesis
    by cases (simp_all add: valof_def round64_idem)
qed

lemma is_finite_dadd: "is_finite (dadd x y) \<Longrightarrow> is_finite x \<and> is_finite y"
  by (cases x; cases y) simp_all

lemma is_finite_dsub: "is_finite (dsub x y) \<Longrightarrow> is_finite x \<and> is_finite y"
  by (cases x; cases y) (simp_all split: if_splits)

lemma dsub_dadd: "is_finite x \<Longrightarrow> is_finite y \<Longrightarrow> dsub x y = dadd x (dneg y)"
  by (cases x; cases y) simp_all

lemma dadd_nonzero:
  "is_finite x \<Longrightarrow> is_finite y \<Longrightarrow> valof x + valof y \<noteq> 0 \<Longrightarrow>
   dadd x y = round64 (valof x + valof y)"
  by (cases x; cases y) (simp_all add: valof_def Let_def)

lemma dadd_zero:
  "is_finite x \<Longrightarrow> is_finite y \<Longrightarrow> valof x + valof y = 0 \<Longrightarrow>
   dadd x y = NegZero \<or> dadd x y = Fin 0"
  by (cases x; cases y) (simp_all add: valof_def Let_def)

lemma dsub_nonzero:
  "is_finite x \<Longrightarrow> is_finite y \<Longrightarrow> valof x - valof y \<noteq> 0 \<Longrightarrow>
   dsub x y = round64 (valof x - valof y)"
  using dadd_nonzero [of x "dneg y"] by (simp add: dsub_dadd is_finite_dneg valof_dneg)

lemma dsub_zero:
  "is_finite x \<Longrightarrow> is_finite y \<Longrightarrow> valof x - valof y = 0 \<Longrightarrow>
   dsub x y = NegZero \<or> dsub x y = Fin 0"
  using dadd_zero [of x "dneg y"] by (simp add: dsub_dadd is_finite_dneg valof_dneg)

lemma round64_0: "round64 0 = Fin 0"
  by (simp add: round64_def)

lemma dsub_representable: "dsub a b = Fin r \<Longrightarrow> round64 r = Fin r"
proof -
  assume r: "dsub a b = Fin r"
  then have "is_finite (dsub a b)" by simp
  then have f: "is_finite a" "is_finite b" using is_finite_dsub by blast+
  show ?thesis
  proof (cases "valof a - valof b = 0")
    case True
    from dsub_zero [OF f True] r have "r = 0" by auto
    then show ?thesis by (simp add: round64_0)
  next
    case False
    from dsub_nonzero [OF f False] r have "round64 (valof a - valof b) = Fin r" by simp
    then show ?thesis by (rule round64_idem)
  qed
qed

lemma deq_dsub_exact:
  assumes W: "is_finite (dsub a b)"
    and u: "is_finite u" and l: "is_finite l"
    and v: "valof u - valof l = valof (dsub a b)"
  shows "deq (dsub u l) (dsub a b)"
proof (cases "valof (dsub a b) = 0")
  case True
  with v have "dsub u l = NegZero \<or> dsub u l = Fin 0"
    by (intro dsub_zero [OF u l]) simp
  moreover from W True have "dsub a b = NegZero \<or> dsub a b = Fin 0"
    by (auto simp add: is_finite_cases valof_def)
  ultimately show ?thesis by (auto simp add: valof_def)
next
  case False
  with W obtain w where w: "dsub a b = Fin w" "w \<noteq> 0"
    by (auto simp add: is_finite_cases valof_def)
  then have rw: "round64 w = Fin w" by (intro dsub_representable)
  from v w have vw: "valof u - valof l = w" by (simp add: valof_def)
  with w(2) have "dsub u l = round64 w"
    using dsub_nonzero [OF u l] by simp
  then show ?thesis by (simp add: rw w valof_def)
qed

lemma square_extent_wide:
  assumes "dless (height (getExtent p)) (width (getExtent p))"
  shows "square_extent p =
    Profile_create (getSRS p) (xMin (getExtent p))
      (dsub (yMin (getExtent p)) (dhalf (dsub (width (getExtent p)) (height (getExtent p)))))
      (xMax (getExtent p))
      (dadd (yMax (getExtent p)) (dhalf (dsub (width (getExtent p)) (height (getExtent p)))))
      (numTilesWideAtLod0 p) (numTilesHighAtLod0 p)"
  using assms by (simp add: square_extent_def Let_def getNumTiles0_def)

lemma dless_asym: "dless x y \<Longrightarrow> \<not> dless y x"
  by (cases x; cases y) simp_all

lemma square_extent_tall:
  assumes "dless (width (getExtent p)) (height (getExtent p))"
  shows "square_extent p =
    Profile_create (getSRS p)
      (dsub (xMin (getExtent p)) (dhalf (dsub (height (getExtent p)) (width (getExtent p)))))
      (yMin (getExtent p))
      (dadd (xMax (getExtent p)) (dhalf (dsub (height (getExtent p)) (width (getExtent p)))))
      (yMax (getExtent p))
      (numTilesWideAtLod0 p) (numTilesHighAtLod0 p)"
  using assms dless_asym [OF assms] by (simp add: square_extent_def Let_def getNumTiles0_def)

lemma square_extent_square:
  assumes "deq (width (getExtent p)) (height (getExtent p))"
  shows "square_extent p = p"
  using deq_not_dless [OF assms] by (simp add: square_extent_def Let_def)

lemma expansion_square:
  assumes ex: "exact_expansion w lo hi" and w: "w = dsub a b"
  shows "deq (dsub (dadd hi (dhalf (dsub w (dsub hi lo)))) (dsub lo (dhalf (dsub w (dsub hi lo))))) w"
    and "valof (dsub lo (dhalf (dsub w (dsub hi lo)))) + valof (dadd hi (dhalf (dsub w (dsub hi lo))))
           = valof lo + valof hi"
proof -
  let ?h = "dsub hi lo"
  let ?d = "dsub w ?h"
  let ?d2 = "dhalf ?d"
  from ex have h: "is_finite ?h" "valof ?h = valof hi - valof lo"
    and d: "is_finite ?d" "valof ?d = valof w - valof ?h"
    and d2: "is_finite ?d2" "valof ?d2 = valof ?d / 2"
    and l: "is_finite (dsub lo ?d2)" "valof (dsub lo ?d2) = valof lo - valof ?d2"
    and u: "is_finite (dadd hi ?d2)" "valof (dadd hi ?d2) = valof hi + valof ?d2"
    by (simp_all add: exact_expansion_def exact_sub_def exact_add_def exact_half_def)
  from d(1) have wf: "is_finite w" using is_finite_dsub by blast
  have "valof (dadd hi ?d2) - valof (dsub lo ?d2) = valof w"
    by (simp add: l u d2 d h)
  with wf l(1) u(1) show "deq (dsub (dadd hi ?d2) (dsub lo ?d2)) w"
    unfolding w by (intro deq_dsub_exact)
  show "valof (dsub lo ?d2) + valof (dadd hi ?d2) = valof lo + valof hi"
    by (simp add: l u)
qed

section \<open>The square expansion\<close>

lemma width_create: "width (getExtent (Profile_create s x0 y0 x1 y1 tx ty)) = dsub x1 x0"
  by (simp add: Profile_create_def width_def)

lemma height_create: "height (getExtent (Profile_create s x0 y0 x1 y1 tx ty)) = dsub y1 y0"
  by (simp add: Profile_create_def height_def)

lemma center_create:
  "center (getExtent (Profile_create s x0 y0 x1 y1 tx ty))
     = ((valof x0 + valof x1) / 2, (valof y0 + valof y1) / 2)"
  by (simp add: Profile_create_def center_def)

lemma square_extent_keeps: "getSRS (square_extent p) = getSRS p \<and> getNumTiles0 (square_extent p) = getNumTiles0 p"
  by (simp add: square_extent_def Let_def getNumTiles0_def Profile_create_def)

lemma deq_sym: "deq x y \<Longrightarrow> deq y x"
  by (cases x; cases y) simp_all

lemma wide_exact:
  assumes w: "dless (height (getExtent p)) (width (getExtent p))"
    and ex: "exact_expansion (width (getExtent p)) (yMin (getExtent p)) (yMax (getExtent p))"
  shows "deq (width (getExtent (square_extent p))) (height (getExtent (square_extent p)))"
    and "center (getExtent (square_extent p)) = center (getExtent p)"
proof -
  let ?e = "getExtent p"
  have h: "height ?e = dsub (yMax ?e) (yMin ?e)" by (simp add: height_def)
  note sq = expansion_square [OF ex, of "xMax ?e" "xMin ?e", unfolded width_def [symmetric] h [symmetric]]
  from sq(1) [OF refl] have "deq (height (getExtent (square_extent p))) (width ?e)"
    unfolding square_extent_wide [OF w] height_create .
  then show "deq (width (getExtent (square_extent p))) (height (getExtent (square_extent p)))"
    unfolding square_extent_wide [OF w] width_create height_create width_def [symmetric]
    by (rule deq_sym)
  from sq(2) [OF refl] show "center (getExtent (square_extent p)) = center ?e"
    unfolding square_extent_wide [OF w] center_create by (simp add: center_def)
qed


lemma tall_exact:
  assumes w: "dless (width (getExtent p)) (height (getExtent p))"
    and ex: "exact_expansion (height (getExtent p)) (xMin (getExtent p)) (xMax (getExtent p))"
  shows "deq (width (getExtent (square_extent p))) (height (getExtent (square_extent p)))"
    and "center (getExtent (square_extent p)) = center (getExtent p)"
proof -
  let ?e = "getExtent p"
  have h: "width ?e = dsub (xMax ?e) (xMin ?e)" by (simp add: width_def)
  note sq = expansion_square [OF ex, of "yMax ?e" "yMin ?e", unfolded height_def [symmetric] h [symmetric]]
  from sq(1) [OF refl]
  show "deq (width (getExtent (square_extent p))) (height (getExtent (square_extent p)))"
    unfolding square_extent_tall [OF w] width_create height_create height_def [symmetric] .
  from sq(2) [OF refl] show "center (getExtent (square_extent p)) = center ?e"
    unfolding square_extent_tall [OF w] center_create by (simp add: center_def)
qed

lemma extent_create:
  "getExtent (Profile_create s x0 y0 x1 y1 tx ty) = \<lparr>xMin = x0, yMin = y0, xMax = x1, yMax = y1\<rparr>"
  by (simp add: Profile_create_def)

lemma initialize_service_profile:
  "profile_str a = [] \<Longrightarrow> getProfile (map_service a) = Some p \<Longrightarrow> \<not> isTiled (map_service a) \<Longrightarrow>
   profile (initialize createNamed globalGeodetic uri ov a) = Some (square_extent p)"
  by (simp add: initialize_def)

section \<open>Squaring sample extents\<close>

lemmas eval_double = valof_def width_def height_def Profile_create_def getNumTiles0_def
  square_extent_def

lemma round64_3_10: "round64 (3 / 10) = Fin (5404319552844595 / 18014398509481984)"
  by (simp add: eval_round)

lemma tall_extent:
  "getExtent tall = \<lparr>xMin = Fin 0, yMin = Fin 0, xMax = Fin (5404319552844595 / 18014398509481984), yMax = Fin 1\<rparr>"
  by (simp add: tall_def Profile_create_def round64_3_10)

lemma tall_width_height:
  "width (getExtent tall) = Fin (5404319552844595 / 18014398509481984)"
  "height (getExtent tall) = Fin 1"
  by (simp_all add: tall_extent eval_double eval_round)

lemma square_extent_tall_value:
  "square_extent tall =
     Profile_create ''WGS84'' (Fin (- 3152519739159347 / 9007199254740992)) (Fin 0)
       (Fin (1463669878895411 / 2251799813685248)) (Fin 1) 1 1"
  by (simp add: tall_def round64_3_10 eval_double eval_round)

lemma square_extent_geodetic:
  "square_extent geodetic = Profile_create ''WGS84'' (Fin (- 180)) (Fin (- 180)) (Fin 180) (Fin 180) 2 1"
  by (simp add: geodetic_def eval_double eval_round)

lemma geodetic_sides:
  "width (getExtent geodetic) = Fin 360" "height (getExtent geodetic) = Fin 180"
  by (simp_all add: geodetic_def eval_double eval_round)

lemma geodetic_exact:
  "exact_expansion (width (getExtent geodetic)) (yMin (getExtent geodetic)) (yMax (getExtent geodetic))"
  by (simp add: geodetic_sides)
     (simp add: geodetic_def exact_expansion_def exact_sub_def exact_add_def exact_half_def
        eval_double eval_round)

lemma upright_sides:
  "width (getExtent upright) = Fin 180" "height (getExtent upright) = Fin 360"
  by (simp_all add: upright_def eval_double eval_round)

lemma upright_exact:
  "exact_expansion (height (getExtent upright)) (xMin (getExtent upright)) (xMax (getExtent upright))"
  by (simp add: upright_sides)
     (simp add: upright_def exact_expansion_def exact_sub_def exact_add_def exact_half_def
        eval_double eval_round)

lemma square_extent_geodetic_squared: "square_extent geodetic = geodetic_squared"
  by (simp add: square_extent_geodetic geodetic_squared_def)

lemma square_extent_upright: "square_extent upright = upright_squared"
  by (simp add: upright_def upright_squared_def eval_double eval_round)

lemma squared_sides:
  "width (getExtent geodetic_squared) = Fin 360" "height (getExtent geodetic_squared) = Fin 360"
  "width (getExtent upright_squared) = Fin 360" "height (getExtent upright_squared) = Fin 360"
  by (simp_all add: geodetic_squared_def upright_squared_def eval_double eval_round)

lemma sample_centers:
  "center (getExtent geodetic) = (0, 0)" "center (getExtent geodetic_squared) = (0, 0)"
  "center (getExtent upright) = (0, 0)" "center (getExtent upright_squared) = (0, 0)"
  by (simp_all add: geodetic_def geodetic_squared_def upright_def upright_squared_def
      center_create valof_def)

lemma tall_squared_sides:
  "width (getExtent tall_squared) = Fin (9007199254740991 / 9007199254740992)"
  "height (getExtent tall_squared) = Fin 1"
  by (simp_all add: tall_squared_def eval_double eval_round)

lemma tall_centers:
  "center (getExtent tall) = (5404319552844595 / 36028797018963968, 1 / 2)"
  "center (getExtent tall_squared) = (2702159776422297 / 18014398509481984, 1 / 2)"
  by (simp add: tall_extent center_def valof_def)
     (simp add: tall_squared_def center_create valof_def)

lemma square_extent_tall_squared: "square_extent tall_squared = tall_squared_twice"
  by (simp add: tall_squared_def tall_squared_twice_def eval_double eval_round)

section \<open>Height fields\<close>

text \<open>
  C8. \<^verbatim>\<open>createHeightField\<close> returns the null height field for every tile key and
  every progress handle, whatever the adapter's fields hold: a constructed adapter
  whose metadata fetch failed or succeeded, initialized or not.
\<close>

theorem createHeightField_not_available:
  "fst (createHeightField a key progress) = None"
  by (simp add: createHeightField_def)

section \<open>Requests leave the adapter as it is\<close>

text \<open>
  C9. None of the per-request methods \<^verbatim>\<open>createImage\<close>, \<^verbatim>\<open>createHeightField\<close>,
  \<^verbatim>\<open>getPixelsPerTile\<close> and \<^verbatim>\<open>getExtension\<close> writes a field: the adapter after the call
  is the adapter before it, so its url, profile string, layer, format and
  map-service descriptor are the same.
\<close>

theorem requests_keep_adapter:
  "snd (createImage readImageFile a key progress) = a
   \<and> snd (createHeightField a key progress) = a
   \<and> snd (getPixelsPerTile a) = a
   \<and> snd (getExtension a) = a"
  by (simp add: createImage_def createHeightField_def getPixelsPerTile_def getExtension_def)

section \<open>The published extension\<close>

lemma format_ArcGISSource: "format (ArcGISSource init opts) = ''png''"
  by (simp add: ArcGISSource_def Let_def)

lemma format_initialize: "format (initialize cn gg uri ov a) = format a"
  by (simp add: initialize_def Let_def)

text \<open>
  C10. \<^verbatim>\<open>getExtension\<close> returns \<open>png\<close> for every constructed adapter, before and
  after \<^verbatim>\<open>initialize\<close>, whatever format the service metadata reports: the constructor
  sets the field to \<open>png\<close> and nothing reads the metadata into it. For a service that
  reports \<open>JPG\<close> tiles the URLs end in \<open>.jpg\<close> while the extension is still \<open>png\<close>.
\<close>

theorem getExtension_always_png:
  "fst (getExtension (ArcGISSource init opts)) = ''png''
   \<and> fst (getExtension (initialize createNamed globalGeodetic uri ov (ArcGISSource init opts))) = ''png''
   \<and> image_format (ArcGISSource jpg_service opts) = ''jpg''
   \<and> fst (getExtension (ArcGISSource jpg_service opts)) \<noteq> image_format (ArcGISSource jpg_service opts)"
proof -
  have jpg: "image_format (ArcGISSource jpg_service opts) = ''jpg''"
    by (simp add: image_format_def ArcGISSource_def jpg_service_def tolower_def Let_def)
  show ?thesis
    by (simp add: getExtension_def format_ArcGISSource format_initialize jpg)
qed

section \<open>The effective profile\<close>

lemma profile_str_ArcGISSource: "profile_str (ArcGISSource init opts) = getPluginData opts ''profile''"
  by (simp add: ArcGISSource_def Let_def)

lemma map_service_ArcGISSource:
  "map_service (ArcGISSource init opts) = snd (init (getPluginData opts ''url''))"
  by (simp add: ArcGISSource_def Let_def)

lemma url_ArcGISSource: "url (ArcGISSource init opts) = getPluginData opts ''url''"
  by (simp add: ArcGISSource_def Let_def)

lemma options_ArcGISSource: "options (ArcGISSource init opts) = opts"
  by (simp add: ArcGISSource_def Let_def)

lemma getPluginData_forced:
  "getPluginData forced_options ''profile'' = ''global-geodetic''"
  "getPluginData forced_options ''url'' = server_url"
  by (simp_all add: getPluginData_def forced_options_def)

lemma getPluginData_server:
  "getPluginData server_options ''profile'' = []"
  "getPluginData server_options ''url'' = server_url"
  by (simp_all add: getPluginData_def server_options_def)

text \<open>
  C6. \<^verbatim>\<open>initialize\<close> sets the profile by strict priority: a non-empty profile
  override string wins and the profile is the one \<^verbatim>\<open>Profile::create\<close> makes of it;
  otherwise the profile reported by the service is used, as it is for a tiled
  service and square-expanded for an export-only one; otherwise the global geodetic
  profile of the registry.
\<close>

theorem initialize_profile_priority:
  "(profile_str a \<noteq> [] \<longrightarrow>
      profile (initialize createNamed globalGeodetic uri ov a) = createNamed (profile_str a))
   \<and> (profile_str a = [] \<and> getProfile (map_service a) = Some sp \<longrightarrow>
      profile (initialize createNamed globalGeodetic uri ov a)
        = Some (if isTiled (map_service a) then sp else square_extent sp))
   \<and> (profile_str a = [] \<and> getProfile (map_service a) = None \<longrightarrow>
      profile (initialize createNamed globalGeodetic uri ov a) = Some globalGeodetic)"
  by (simp add: initialize_def)

theorem initialize_profile_priority_witness:
  "profile_str (ArcGISSource tiled_service forced_options) \<noteq> []
   \<and> profile (initialize named_profile geodetic [] None (ArcGISSource tiled_service forced_options))
       = Some geodetic
   \<and> profile_str (ArcGISSource tiled_service server_options) = []
   \<and> getProfile (map_service (ArcGISSource tiled_service server_options)) = Some geodetic
   \<and> profile (initialize named_profile geodetic [] None (ArcGISSource tiled_service server_options))
       = Some geodetic
   \<and> profile_str (ArcGISSource failed_service server_options) = []
   \<and> getProfile (map_service (ArcGISSource failed_service server_options)) = None
   \<and> profile (initialize named_profile geodetic [] None (ArcGISSource failed_service server_options))
       = Some geodetic"
proof -
  let ?A = "ArcGISSource tiled_service forced_options"
  let ?B = "ArcGISSource tiled_service server_options"
  let ?C = "ArcGISSource failed_service server_options"
  have a: "profile_str ?A \<noteq> []" and an: "named_profile (profile_str ?A) = Some geodetic"
    by (simp_all add: profile_str_ArcGISSource getPluginData_forced named_profile_def)
  have b: "profile_str ?B = [] \<and> getProfile (map_service ?B) = Some geodetic"
    and bt: "isTiled (map_service ?B)"
    by (simp_all add: profile_str_ArcGISSource map_service_ArcGISSource getPluginData_server
        tiled_service_def)
  have c: "profile_str ?C = [] \<and> getProfile (map_service ?C) = None"
    by (simp add: profile_str_ArcGISSource map_service_ArcGISSource getPluginData_server
        failed_service_def)
  note p = initialize_profile_priority [where createNamed = named_profile and
      globalGeodetic = geodetic and uri = "[]" and ov = None]
  from p [of ?A, THEN conjunct1, THEN mp, OF a] an
  have ra: "profile (initialize named_profile geodetic [] None ?A) = Some geodetic"
    by simp
  from p [of ?B geodetic, THEN conjunct2, THEN conjunct1, THEN mp, OF b] bt
  have rb: "profile (initialize named_profile geodetic [] None ?B) = Some geodetic"
    by simp
  from p [of ?C, THEN conjunct2, THEN conjunct2, THEN mp, OF c]
  have rc: "profile (initialize named_profile geodetic [] None ?C) = Some geodetic" .
  from a ra b rb c rc show ?thesis by blast
qed

section \<open>The profile of an export-only service\<close>

lemma sample_adapter:
  "profile_str (ArcGISSource init server_options) = []"
  "map_service (ArcGISSource init server_options) = snd (init server_url)"
  by (simp_all add: profile_str_ArcGISSource map_service_ArcGISSource getPluginData_server)

text \<open>
  C3 as stated fails in double arithmetic. The sample service reports the extent
  \<open>(0, 0, 0.3, 1)\<close> and is not tiled; \<^verbatim>\<open>initialize\<close> computes \<open>d = 1 - 0.3 = 0.7\<close>,
  \<open>d/2 = 0.35\<close> and the new bounds \<open>0 - 0.35 = -0.35\<close> and
  \<open>0.3 + 0.35 = 0.6499999999999999\<close>, each rounded to the nearest double. The width
  of the result is \<open>0.9999999999999999\<close>, its height is \<open>1\<close>, and its centre is not the
  centre of the reported extent.
\<close>

theorem initialize_squares_extent_counterexample:
  "profile_str (ArcGISSource tall_service server_options) = []
   \<and> getProfile (map_service (ArcGISSource tall_service server_options)) = Some tall
   \<and> \<not> isTiled (map_service (ArcGISSource tall_service server_options))
   \<and> dless (width (getExtent tall)) (height (getExtent tall))
   \<and> profile (initialize named_profile geodetic [] None (ArcGISSource tall_service server_options))
       = Some tall_squared
   \<and> width (getExtent tall_squared) = Fin (9007199254740991 / 9007199254740992)
   \<and> height (getExtent tall_squared) = Fin 1
   \<and> \<not> deq (width (getExtent tall_squared)) (height (getExtent tall_squared))
   \<and> center (getExtent tall_squared) \<noteq> center (getExtent tall)"
proof -
  let ?T = "ArcGISSource tall_service server_options"
  have a: "profile_str ?T = []" "getProfile (map_service ?T) = Some tall"
    "\<not> isTiled (map_service ?T)"
    by (simp_all add: sample_adapter tall_service_def)
  have d: "dless (width (getExtent tall)) (height (getExtent tall))"
    by (simp add: tall_width_height valof_def)
  have p: "profile (initialize named_profile geodetic [] None ?T) = Some tall_squared"
    by (simp add: initialize_service_profile [OF a] square_extent_tall_value tall_squared_def)
  have n: "\<not> deq (width (getExtent tall_squared)) (height (getExtent tall_squared))"
    by (simp add: tall_squared_sides valof_def)
  have c: "center (getExtent tall_squared) \<noteq> center (getExtent tall)"
    by (simp add: tall_centers)
  from a d p n c tall_squared_sides show ?thesis by blast
qed

text \<open>
  C3, amended. For a service that is not tiled and reports a profile, with no
  profile override, \<^verbatim>\<open>initialize\<close> sets a profile with the same spatial reference and
  the same tile counts at level 0. When the width exceeds the height the \<open>x\<close> bounds
  are kept and \<open>d/2\<close> is subtracted from \<open>yMin\<close> and added to \<open>yMax\<close>, \<open>d\<close> being the
  double \<open>width - height\<close>; when the height exceeds the width the same is done to the
  \<open>x\<close> bounds with \<open>d = height - width\<close>. The resulting width equals the resulting
  height, and the centre is the centre of the reported extent, whenever none of the
  five double operations of the expansion rounds.
\<close>

theorem initialize_squares_extent:
  "profile_str a = [] \<and> getProfile (map_service a) = Some p \<and> \<not> isTiled (map_service a) \<longrightarrow>
     (let e = getExtent p; e' = getExtent (square_extent p)
      in profile (initialize createNamed globalGeodetic uri ov a) = Some (square_extent p)
         \<and> getSRS (square_extent p) = getSRS p
         \<and> getNumTiles0 (square_extent p) = getNumTiles0 p
         \<and> (dless (height e) (width e) \<longrightarrow>
              xMin e' = xMin e \<and> xMax e' = xMax e
              \<and> yMin e' = dsub (yMin e) (dhalf (dsub (width e) (height e)))
              \<and> yMax e' = dadd (yMax e) (dhalf (dsub (width e) (height e)))
              \<and> (exact_expansion (width e) (yMin e) (yMax e) \<longrightarrow>
                    deq (width e') (height e') \<and> center e' = center e))
         \<and> (dless (width e) (height e) \<longrightarrow>
              yMin e' = yMin e \<and> yMax e' = yMax e
              \<and> xMin e' = dsub (xMin e) (dhalf (dsub (height e) (width e)))
              \<and> xMax e' = dadd (xMax e) (dhalf (dsub (height e) (width e)))
              \<and> (exact_expansion (height e) (xMin e) (xMax e) \<longrightarrow>
                    deq (width e') (height e') \<and> center e' = center e)))"
proof (intro impI, elim conjE)
  assume a: "profile_str a = []" "getProfile (map_service a) = Some p" "\<not> isTiled (map_service a)"
  let ?e = "getExtent p" and ?e' = "getExtent (square_extent p)"
  have 1: "profile (initialize createNamed globalGeodetic uri ov a) = Some (square_extent p)"
    using a by (rule initialize_service_profile)
  have 2: "dless (height ?e) (width ?e) \<longrightarrow>
              xMin ?e' = xMin ?e \<and> xMax ?e' = xMax ?e
              \<and> yMin ?e' = dsub (yMin ?e) (dhalf (dsub (width ?e) (height ?e)))
              \<and> yMax ?e' = dadd (yMax ?e) (dhalf (dsub (width ?e) (height ?e)))
              \<and> (exact_expansion (width ?e) (yMin ?e) (yMax ?e) \<longrightarrow>
                    deq (width ?e') (height ?e') \<and> center ?e' = center ?e)"
  proof
    assume w: "dless (height ?e) (width ?e)"
    show "xMin ?e' = xMin ?e \<and> xMax ?e' = xMax ?e
              \<and> yMin ?e' = dsub (yMin ?e) (dhalf (dsub (width ?e) (height ?e)))
              \<and> yMax ?e' = dadd (yMax ?e) (dhalf (dsub (width ?e) (height ?e)))
              \<and> (exact_expansion (width ?e) (yMin ?e) (yMax ?e) \<longrightarrow>
                    deq (width ?e') (height ?e') \<and> center ?e' = center ?e)"
      using wide_exact [OF w] by (simp add: square_extent_wide [OF w] extent_create)
  qed
  have 3: "dless (width ?e) (height ?e) \<longrightarrow>
              yMin ?e' = yMin ?e \<and> yMax ?e' = yMax ?e
              \<and> xMin ?e' = dsub (xMin ?e) (dhalf (dsub (height ?e) (width ?e)))
              \<and> xMax ?e' = dadd (xMax ?e) (dhalf (dsub (height ?e) (width ?e)))
              \<and> (exact_expansion (height ?e) (xMin ?e) (xMax ?e) \<longrightarrow>
                    deq (width ?e') (height ?e') \<and> center ?e' = center ?e)"
  proof
    assume w: "dless (width ?e) (height ?e)"
    show "yMin ?e' = yMin ?e \<and> yMax ?e' = yMax ?e
              \<and> xMin ?e' = dsub (xMin ?e) (dhalf (dsub (height ?e) (width ?e)))
              \<and> xMax ?e' = dadd (xMax ?e) (dhalf (dsub (height ?e) (width ?e)))
              \<and> (exact_expansion (height ?e) (xMin ?e) (xMax ?e) \<longrightarrow>
                    deq (width ?e') (height ?e') \<and> center ?e' = center ?e)"
      using tall_exact [OF w] by (simp add: square_extent_tall [OF w] extent_create)
  qed
  from 1 2 3 square_extent_keeps [of p]
  show "let e = getExtent p; e' = getExtent (square_extent p)
      in profile (initialize createNamed globalGeodetic uri ov a) = Some (square_extent p)
         \<and> getSRS (square_extent p) = getSRS p
         \<and> getNumTiles0 (square_extent p) = getNumTiles0 p
         \<and> (dless (height e) (width e) \<longrightarrow>
              xMin e' = xMin e \<and> xMax e' = xMax e
              \<and> yMin e' = dsub (yMin e) (dhalf (dsub (width e) (height e)))
              \<and> yMax e' = dadd (yMax e) (dhalf (dsub (width e) (height e)))
              \<and> (exact_expansion (width e) (yMin e) (yMax e) \<longrightarrow>
                    deq (width e') (height e') \<and> center e' = center e))
         \<and> (dless (width e) (height e) \<longrightarrow>
              yMin e' = yMin e \<and> yMax e' = yMax e
              \<and> xMin e' = dsub (xMin e) (dhalf (dsub (height e) (width e)))
              \<and> xMax e' = dadd (xMax e) (dhalf (dsub (height e) (width e)))
              \<and> (exact_expansion (height e) (xMin e) (xMax e) \<longrightarrow>
                    deq (width e') (height e') \<and> center e' = center e))"
    unfolding Let_def by blast
qed

theorem initialize_squares_extent_witness:
  "profile_str (ArcGISSource export_service server_options) = []
   \<and> getProfile (map_service (ArcGISSource export_service server_options)) = Some geodetic
   \<and> \<not> isTiled (map_service (ArcGISSource export_service server_options))
   \<and> dless (height (getExtent geodetic)) (width (getExtent geodetic))
   \<and> exact_expansion (width (getExtent geodetic)) (yMin (getExtent geodetic)) (yMax (getExtent geodetic))
   \<and> profile (initialize named_profile geodetic [] None (ArcGISSource export_service server_options))
       = Some geodetic_squared
   \<and> deq (width (getExtent geodetic_squared)) (height (getExtent geodetic_squared))
   \<and> center (getExtent geodetic_squared) = center (getExtent geodetic)
   \<and> profile_str (ArcGISSource upright_service server_options) = []
   \<and> getProfile (map_service (ArcGISSource upright_service server_options)) = Some upright
   \<and> \<not> isTiled (map_service (ArcGISSource upright_service server_options))
   \<and> dless (width (getExtent upright)) (height (getExtent upright))
   \<and> exact_expansion (height (getExtent upright)) (xMin (getExtent upright)) (xMax (getExtent upright))
   \<and> profile (initialize named_profile geodetic [] None (ArcGISSource upright_service server_options))
       = Some upright_squared
   \<and> deq (width (getExtent upright_squared)) (height (getExtent upright_squared))
   \<and> center (getExtent upright_squared) = center (getExtent upright)"
proof -
  let ?A = "ArcGISSource export_service server_options"
  let ?B = "ArcGISSource upright_service server_options"
  have a: "profile_str ?A = [] \<and> getProfile (map_service ?A) = Some geodetic
      \<and> \<not> isTiled (map_service ?A)"
    by (simp add: sample_adapter export_service_def)
  have b: "profile_str ?B = [] \<and> getProfile (map_service ?B) = Some upright
      \<and> \<not> isTiled (map_service ?B)"
    by (simp add: sample_adapter upright_service_def)
  have wa: "dless (height (getExtent geodetic)) (width (getExtent geodetic))"
    by (simp add: geodetic_sides valof_def)
  have wb: "dless (width (getExtent upright)) (height (getExtent upright))"
    by (simp add: upright_sides valof_def)
  note ta = initialize_squares_extent [where a = ?A and p = geodetic and createNamed = named_profile
      and globalGeodetic = geodetic and uri = "[]" and ov = None, unfolded Let_def, THEN mp, OF a]
  note tb = initialize_squares_extent [where a = ?B and p = upright and createNamed = named_profile
      and globalGeodetic = geodetic and uri = "[]" and ov = None, unfolded Let_def, THEN mp, OF b]
  from ta wa geodetic_exact
  have ra: "profile (initialize named_profile geodetic [] None ?A) = Some (square_extent geodetic)
      \<and> deq (width (getExtent (square_extent geodetic))) (height (getExtent (square_extent geodetic)))
      \<and> center (getExtent (square_extent geodetic)) = center (getExtent geodetic)"
    by blast
  from tb wb upright_exact
  have rb: "profile (initialize named_profile geodetic [] None ?B) = Some (square_extent upright)
      \<and> deq (width (getExtent (square_extent upright))) (height (getExtent (square_extent upright)))
      \<and> center (getExtent (square_extent upright)) = center (getExtent upright)"
    by blast
  from a wa geodetic_exact ra [unfolded square_extent_geodetic_squared]
    b wb upright_exact rb [unfolded square_extent_upright]
  show ?thesis by blast
qed

section \<open>Squaring twice\<close>

text \<open>
  C5 as stated fails in double arithmetic: applied to the extent \<open>(0, 0, 0.3, 1)\<close> the
  expansion gives \<open>(-0.35, 0, 0.6499999999999999, 1)\<close>, whose width
  \<open>0.9999999999999999\<close> is still less than its height, and applied once more it moves
  \<open>xMin\<close> to \<open>-0.35000000000000003\<close>.
\<close>

theorem square_extent_idempotent_counterexample:
  "square_extent tall = tall_squared
   \<and> square_extent tall_squared = tall_squared_twice
   \<and> square_extent (square_extent tall) \<noteq> square_extent tall"
proof -
  have 1: "square_extent tall = tall_squared"
    by (simp add: square_extent_tall_value tall_squared_def)
  have 2: "tall_squared_twice \<noteq> tall_squared"
    by (simp add: tall_squared_def tall_squared_twice_def Profile_create_def)
  from 1 2 square_extent_tall_squared show ?thesis by simp
qed

lemma initialize_square_profile:
  assumes "deq (width (getExtent p)) (height (getExtent p))"
    and "profile_str a = []" and "getProfile (map_service a) = Some p"
  shows "profile (initialize createNamed globalGeodetic uri ov a) = Some p"
  using assms(2,3) square_extent_square [OF assms(1)] by (simp add: initialize_def)

text \<open>
  C5, amended. On an extent whose width equals its height the expansion changes
  nothing, and \<^verbatim>\<open>initialize\<close> sets the reported profile itself. Applying the expansion
  twice gives the same as applying it once whenever the first result has equal
  width and height, which is so whenever none of the double operations of the first
  expansion rounds.
\<close>

theorem square_extent_noop_on_square:
  "(deq (width (getExtent p)) (height (getExtent p)) \<longrightarrow>
      square_extent p = p
      \<and> (profile_str a = [] \<and> getProfile (map_service a) = Some p \<longrightarrow>
            profile (initialize createNamed globalGeodetic uri ov a) = Some p))
   \<and> (deq (width (getExtent (square_extent p))) (height (getExtent (square_extent p))) \<longrightarrow>
        square_extent (square_extent p) = square_extent p)
   \<and> (dless (height (getExtent p)) (width (getExtent p))
        \<and> exact_expansion (width (getExtent p)) (yMin (getExtent p)) (yMax (getExtent p)) \<longrightarrow>
        square_extent (square_extent p) = square_extent p)
   \<and> (dless (width (getExtent p)) (height (getExtent p))
        \<and> exact_expansion (height (getExtent p)) (xMin (getExtent p)) (xMax (getExtent p)) \<longrightarrow>
        square_extent (square_extent p) = square_extent p)"
  using square_extent_square [of p] square_extent_square [of "square_extent p"]
    initialize_square_profile [of p a createNamed globalGeodetic uri ov]
    wide_exact(1) [of p] tall_exact(1) [of p]
  by blast

theorem square_extent_noop_on_square_witness:
  "deq (width (getExtent geodetic_squared)) (height (getExtent geodetic_squared))
   \<and> square_extent geodetic_squared = geodetic_squared
   \<and> profile_str (ArcGISSource square_service server_options) = []
   \<and> getProfile (map_service (ArcGISSource square_service server_options)) = Some geodetic_squared
   \<and> profile (initialize named_profile geodetic [] None (ArcGISSource square_service server_options))
       = Some geodetic_squared
   \<and> deq (width (getExtent (square_extent geodetic))) (height (getExtent (square_extent geodetic)))
   \<and> dless (height (getExtent geodetic)) (width (getExtent geodetic))
   \<and> exact_expansion (width (getExtent geodetic)) (yMin (getExtent geodetic)) (yMax (getExtent geodetic))
   \<and> square_extent (square_extent geodetic) = square_extent geodetic
   \<and> dless (width (getExtent upright)) (height (getExtent upright))
   \<and> exact_expansion (height (getExtent upright)) (xMin (getExtent upright)) (xMax (getExtent upright))
   \<and> square_extent (square_extent upright) = square_extent upright"
proof -
  let ?S = "ArcGISSource square_service server_options"
  have q: "deq (width (getExtent geodetic_squared)) (height (getExtent geodetic_squared))"
    by (simp add: squared_sides valof_def)
  have s: "profile_str ?S = [] \<and> getProfile (map_service ?S) = Some geodetic_squared"
    by (simp add: sample_adapter square_service_def)
  have q': "deq (width (getExtent (square_extent geodetic))) (height (getExtent (square_extent geodetic)))"
    by (simp add: square_extent_geodetic_squared squared_sides valof_def)
  have wa: "dless (height (getExtent geodetic)) (width (getExtent geodetic))"
    by (simp add: geodetic_sides valof_def)
  have wb: "dless (width (getExtent upright)) (height (getExtent upright))"
    by (simp add: upright_sides valof_def)
  note n1 = square_extent_noop_on_square [where p = geodetic_squared and a = ?S
      and createNamed = named_profile and globalGeodetic = geodetic and uri = "[]" and ov = None,
      THEN conjunct1, THEN mp, OF q]
  note n2 = square_extent_noop_on_square [where p = geodetic and a = ?S
      and createNamed = named_profile and globalGeodetic = geodetic and uri = "[]" and ov = None,
      THEN conjunct2]
  note n3 = square_extent_noop_on_square [where p = upright and a = ?S
      and createNamed = named_profile and globalGeodetic = geodetic and uri = "[]" and ov = None,
      THEN conjunct2, THEN conjunct2, THEN conjunct2]
  from n1 s have r1: "square_extent geodetic_squared = geodetic_squared
      \<and> profile (initialize named_profile geodetic [] None ?S) = Some geodetic_squared"
    by blast
  from n2 [THEN conjunct1] q' n2 [THEN conjunct2, THEN conjunct1] wa geodetic_exact
  have r2: "square_extent (square_extent geodetic) = square_extent geodetic"
    by blast
  from n3 wb upright_exact
  have r3: "square_extent (square_extent upright) = square_extent upright"
    by blast
  from q s r1 q' wa geodetic_exact r2 wb upright_exact r3 show ?thesis by blast
qed

section \<open>Tile URLs\<close>

lemma take3_short: "length f \<le> 3 \<Longrightarrow> take 3 f = f"
  by simp

lemma image_format_normalized:
  "image_format a = normalized_format (getFormat (getTileInfo (map_service a)))"
proof -
  let ?f = "map tolower (getFormat (getTileInfo (map_service a)))"
  show ?thesis
  proof (cases "length ?f > 3")
    case True
    then show ?thesis by (simp add: image_format_def normalized_format_def Let_def)
  next
    case False
    then have "take 3 ?f = ?f" by (intro take3_short) simp
    with False show ?thesis
      by (auto simp add: image_format_def normalized_format_def Let_def)
  qed
qed










section \<open>Export URLs\<close>

lemma show_g_10_5: "show_g 16 10 = ''10''" "show_g 16 5 = ''5''"
  by (simp_all add: eval_round eval_show)

lemma show_double_10_5:
  "show_double 16 (Fin (- 10)) = ''-10''"
  "show_double 16 (Fin (- 5)) = ''-5''"
  "show_double 16 (Fin 10) = ''10''"
  "show_double 16 (Fin 5) = ''5''"
  by (simp_all add: show_g_10_5)

lemma export_adapter:
  "map_service (ArcGISSource export_service server_options) = snd (export_service server_url)"
  "url (ArcGISSource export_service server_options) = server_url"
  by (simp_all add: map_service_ArcGISSource url_ArcGISSource getPluginData_server)

lemma export_url_10_5:
  "image_url (ArcGISSource export_service server_options) tile_10_5
     = ''http://server/ArcGIS/rest/services/Layer/MapServer/export?bbox=-10,-5,10,5&format=png&size=256,256&transparent=true&f=image&.png''"
  by (simp add: image_url_def image_format_def Let_def export_adapter export_service_def
      tile_10_5_def show_g_10_5 server_url_def tolower_def)

text \<open>
  C1 as stated fails: after \<open>f=image\<close> the code appends \<open>&.\<close> and the format once more.
  For the export-only sample service and the extent \<open>(-10, -5, 10, 5)\<close> the URL ends
  in \<open>&f=image&.png\<close>.
\<close>

theorem export_url_ends_at_f_image_counterexample:
  "\<not> isTiled (map_service (ArcGISSource export_service server_options))
   \<and> image_url (ArcGISSource export_service server_options) tile_10_5
       \<noteq> url (ArcGISSource export_service server_options) @ ''/export?bbox=''
           @ show_double 16 (xMin (getGeoExtent tile_10_5)) @ '',''
           @ show_double 16 (yMin (getGeoExtent tile_10_5)) @ '',''
           @ show_double 16 (xMax (getGeoExtent tile_10_5)) @ '',''
           @ show_double 16 (yMax (getGeoExtent tile_10_5))
           @ ''&format='' @ normalized_format (getFormat (getTileInfo (map_service
                (ArcGISSource export_service server_options))))
           @ ''&size=256,256&transparent=true&f=image''
   \<and> image_url (ArcGISSource export_service server_options) tile_10_5
       = ''http://server/ArcGIS/rest/services/Layer/MapServer/export?bbox=-10,-5,10,5&format=png&size=256,256&transparent=true&f=image&.png''"
proof -
  let ?A = "ArcGISSource export_service server_options"
  have t: "\<not> isTiled (map_service ?A)"
    by (simp add: export_adapter export_service_def)
  have c: "url ?A @ ''/export?bbox=''
           @ show_double 16 (xMin (getGeoExtent tile_10_5)) @ '',''
           @ show_double 16 (yMin (getGeoExtent tile_10_5)) @ '',''
           @ show_double 16 (xMax (getGeoExtent tile_10_5)) @ '',''
           @ show_double 16 (yMax (getGeoExtent tile_10_5))
           @ ''&format='' @ normalized_format (getFormat (getTileInfo (map_service ?A)))
           @ ''&size=256,256&transparent=true&f=image''
      = ''http://server/ArcGIS/rest/services/Layer/MapServer/export?bbox=-10,-5,10,5&format=png&size=256,256&transparent=true&f=image''"
    by (simp add: export_adapter export_service_def tile_10_5_def show_g_10_5
        server_url_def normalized_format_def tolower_def)
  show ?thesis
    unfolding c export_url_10_5 using t by simp
qed

text \<open>
  C1, amended. For a service that is not tiled \<^verbatim>\<open>createImage\<close> fetches
  \<open>{base}/export?bbox={xmin},{ymin},{xmax},{ymax}&format={format}&size=256,256&transparent=true&f=image&.{format}\<close>:
  the base is the configured url, the four coordinates are those of the key's extent
  written at precision 16, the format is the normalized one, and the URL ends with
  \<open>&.\<close> and the format.
\<close>

theorem export_image_url:
  "\<not> isTiled (map_service a) \<longrightarrow>
     image_url a key
       = url a @ ''/export?bbox=''
           @ show_double 16 (xMin (getGeoExtent key)) @ '',''
           @ show_double 16 (yMin (getGeoExtent key)) @ '',''
           @ show_double 16 (xMax (getGeoExtent key)) @ '',''
           @ show_double 16 (yMax (getGeoExtent key))
           @ ''&format='' @ normalized_format (getFormat (getTileInfo (map_service a)))
           @ ''&size=256,256&transparent=true&f=image''
           @ ''&.'' @ normalized_format (getFormat (getTileInfo (map_service a)))
     \<and> fst (createImage readImageFile a key progress)
         = readImageFile (image_url a key) (options a) progress"
  by (simp add: image_url_def Let_def image_format_normalized createImage_def)

theorem export_image_url_witness:
  "\<not> isTiled (map_service (ArcGISSource export_service server_options))
   \<and> image_url (ArcGISSource export_service server_options) tile_10_5
       = ''http://server/ArcGIS/rest/services/Layer/MapServer/export?bbox=-10,-5,10,5&format=png&size=256,256&transparent=true&f=image&.png''
   \<and> fst (createImage image_server (ArcGISSource export_service server_options) tile_10_5 ())
       = Some ''image''"
proof -
  let ?A = "ArcGISSource export_service server_options"
  have t: "\<not> isTiled (map_service ?A)"
    by (simp add: export_adapter export_service_def)
  note w = export_image_url [where a = ?A and key = tile_10_5 and readImageFile = image_server
      and progress = "()", THEN mp, OF t]
  from w [THEN conjunct1]
  have u: "image_url ?A tile_10_5
       = ''http://server/ArcGIS/rest/services/Layer/MapServer/export?bbox=-10,-5,10,5&format=png&size=256,256&transparent=true&f=image&.png''"
    by (simp add: export_adapter export_service_def tile_10_5_def show_g_10_5
        server_url_def normalized_format_def tolower_def)
  from w [THEN conjunct2]
  have c: "fst (createImage image_server ?A tile_10_5 ()) = Some ''image''"
    by (simp add: image_server_def)
  from t u c show ?thesis by blast
qed

section \<open>The precision of the bounding box\<close>

lemma round64_third: "round64 (1 / 3) = Fin (6004799503160661 / 18014398509481984)"
  by (simp add: eval_round)

lemma show_g_third: "show_g 16 (6004799503160661 / 18014398509481984) = ''0.3333333333333333''"
  by (simp add: eval_round eval_show)

lemma show_g_1: "show_g 16 1 = ''1''"
  by (simp add: eval_round eval_show)

lemma decimal_value_third:
  "decimal_value ''0.3333333333333333'' = 3333333333333333 / 10000000000000000"
  by (simp add: decimal_value_def unsigned_value_def mantissa_value_def fraction_value_def
      exponent_value_def digits_value_def digit_value_def)

lemma half_unit_third: "half_unit 16 (6004799503160661 / 18014398509481984) = 1 / 20000000000000000"
  by (simp add: half_unit_def eval_round)

text \<open>
  C7. For a service that is not tiled each of the four coordinates of the key's
  extent is written after \<open>bbox=\<close> at the stream precision 16. When the coordinate is
  finite, the decimal numeral written denotes a number that differs from the
  coordinate by at most half a unit of the coordinate's 16th significant digit: the
  coordinate is serialized to 16 significant digits, of which trailing zeros are not
  written. The extent \<open>(-10, -5, 10, 5)\<close> gives \<open>bbox=-10,-5,10,5\<close>.
\<close>

theorem bbox_sixteen_digits:
  "\<not> isTiled (map_service a) \<longrightarrow>
     image_url a key
       = url a @ ''/export?'' @ ''bbox=''
           @ show_double 16 (xMin (getGeoExtent key)) @ '',''
           @ show_double 16 (yMin (getGeoExtent key)) @ '',''
           @ show_double 16 (xMax (getGeoExtent key)) @ '',''
           @ show_double 16 (yMax (getGeoExtent key))
           @ ''&format='' @ image_format a @ ''&size=256,256&transparent=true&f=image&.''
           @ image_format a
     \<and> (is_finite (xMin (getGeoExtent key)) \<longrightarrow>
          \<bar>decimal_value (show_double 16 (xMin (getGeoExtent key))) - valof (xMin (getGeoExtent key))\<bar>
            \<le> half_unit 16 (valof (xMin (getGeoExtent key))))
     \<and> (is_finite (yMin (getGeoExtent key)) \<longrightarrow>
          \<bar>decimal_value (show_double 16 (yMin (getGeoExtent key))) - valof (yMin (getGeoExtent key))\<bar>
            \<le> half_unit 16 (valof (yMin (getGeoExtent key))))
     \<and> (is_finite (xMax (getGeoExtent key)) \<longrightarrow>
          \<bar>decimal_value (show_double 16 (xMax (getGeoExtent key))) - valof (xMax (getGeoExtent key))\<bar>
            \<le> half_unit 16 (valof (xMax (getGeoExtent key))))
     \<and> (is_finite (yMax (getGeoExtent key)) \<longrightarrow>
          \<bar>decimal_value (show_double 16 (yMax (getGeoExtent key))) - valof (yMax (getGeoExtent key))\<bar>
            \<le> half_unit 16 (valof (yMax (getGeoExtent key))))
     \<and> (getGeoExtent key = \<lparr>xMin = Fin (- 10), yMin = Fin (- 5), xMax = Fin 10, yMax = Fin 5\<rparr> \<longrightarrow>
          image_url a key
            = url a @ ''/export?'' @ ''bbox=-10,-5,10,5'' @ ''&format='' @ image_format a
                @ ''&size=256,256&transparent=true&f=image&.'' @ image_format a)"
proof
  assume t: "\<not> isTiled (map_service a)"
  have u: "image_url a key
       = url a @ ''/export?'' @ ''bbox=''
           @ show_double 16 (xMin (getGeoExtent key)) @ '',''
           @ show_double 16 (yMin (getGeoExtent key)) @ '',''
           @ show_double 16 (xMax (getGeoExtent key)) @ '',''
           @ show_double 16 (yMax (getGeoExtent key))
           @ ''&format='' @ image_format a @ ''&size=256,256&transparent=true&f=image&.''
           @ image_format a"
    using t by (simp add: image_url_def Let_def)
  have p: "is_finite c \<longrightarrow> \<bar>decimal_value (show_double 16 c) - valof c\<bar> \<le> half_unit 16 (valof c)"
    for c
    using show_double_half_unit [of c 16] by simp
  have i: "getGeoExtent key = \<lparr>xMin = Fin (- 10), yMin = Fin (- 5), xMax = Fin 10, yMax = Fin 5\<rparr> \<longrightarrow>
          image_url a key
            = url a @ ''/export?'' @ ''bbox=-10,-5,10,5'' @ ''&format='' @ image_format a
                @ ''&size=256,256&transparent=true&f=image&.'' @ image_format a"
    by (simp add: u show_g_10_5)
  from u p i show "image_url a key
       = url a @ ''/export?'' @ ''bbox=''
           @ show_double 16 (xMin (getGeoExtent key)) @ '',''
           @ show_double 16 (yMin (getGeoExtent key)) @ '',''
           @ show_double 16 (xMax (getGeoExtent key)) @ '',''
           @ show_double 16 (yMax (getGeoExtent key))
           @ ''&format='' @ image_format a @ ''&size=256,256&transparent=true&f=image&.''
           @ image_format a
     \<and> (is_finite (xMin (getGeoExtent key)) \<longrightarrow>
          \<bar>decimal_value (show_double 16 (xMin (getGeoExtent key))) - valof (xMin (getGeoExtent key))\<bar>
            \<le> half_unit 16 (valof (xMin (getGeoExtent key))))
     \<and> (is_finite (yMin (getGeoExtent key)) \<longrightarrow>
          \<bar>decimal_value (show_double 16 (yMin (getGeoExtent key))) - valof (yMin (getGeoExtent key))\<bar>
            \<le> half_unit 16 (valof (yMin (getGeoExtent key))))
     \<and> (is_finite (xMax (getGeoExtent key)) \<longrightarrow>
          \<bar>decimal_value (show_double 16 (xMax (getGeoExtent key))) - valof (xMax (getGeoExtent key))\<bar>
            \<le> half_unit 16 (valof (xMax (getGeoExtent key))))
     \<and> (is_finite (yMax (getGeoExtent key)) \<longrightarrow>
          \<bar>decimal_value (show_double 16 (yMax (getGeoExtent key))) - valof (yMax (getGeoExtent key))\<bar>
            \<le> half_unit 16 (valof (yMax (getGeoExtent key))))
     \<and> (getGeoExtent key = \<lparr>xMin = Fin (- 10), yMin = Fin (- 5), xMax = Fin 10, yMax = Fin 5\<rparr> \<longrightarrow>
          image_url a key
            = url a @ ''/export?'' @ ''bbox=-10,-5,10,5'' @ ''&format='' @ image_format a
                @ ''&size=256,256&transparent=true&f=image&.'' @ image_format a)"
    by blast
qed

theorem bbox_sixteen_digits_witness:
  "\<not> isTiled (map_service (ArcGISSource export_service server_options))
   \<and> getGeoExtent tile_10_5 = \<lparr>xMin = Fin (- 10), yMin = Fin (- 5), xMax = Fin 10, yMax = Fin 5\<rparr>
   \<and> image_url (ArcGISSource export_service server_options) tile_10_5
       = ''http://server/ArcGIS/rest/services/Layer/MapServer/export?bbox=-10,-5,10,5&format=png&size=256,256&transparent=true&f=image&.png''
   \<and> is_finite (xMin (getGeoExtent tile_third)) \<and> is_finite (yMin (getGeoExtent tile_third))
   \<and> is_finite (xMax (getGeoExtent tile_third)) \<and> is_finite (yMax (getGeoExtent tile_third))
   \<and> image_url (ArcGISSource export_service server_options) tile_third
       = ''http://server/ArcGIS/rest/services/Layer/MapServer/export?bbox=0.3333333333333333,0,1,1&format=png&size=256,256&transparent=true&f=image&.png''
   \<and> \<bar>3333333333333333 / 10000000000000000 - 6004799503160661 / 18014398509481984\<bar>
       \<le> (1 / 20000000000000000 :: rat)"
proof -
  let ?A = "ArcGISSource export_service server_options"
  have t: "\<not> isTiled (map_service ?A)"
    by (simp add: export_adapter export_service_def)
  have e: "getGeoExtent tile_10_5 = \<lparr>xMin = Fin (- 10), yMin = Fin (- 5), xMax = Fin 10, yMax = Fin 5\<rparr>"
    by (simp add: tile_10_5_def)
  have f: "is_finite (xMin (getGeoExtent tile_third))" "is_finite (yMin (getGeoExtent tile_third))"
    "is_finite (xMax (getGeoExtent tile_third))" "is_finite (yMax (getGeoExtent tile_third))"
    by (simp_all add: tile_third_def round64_third)
  have fmt: "image_format ?A = ''png''"
    by (simp add: image_format_def Let_def export_adapter export_service_def tolower_def)
  note w1 = bbox_sixteen_digits [where a = ?A and key = tile_10_5, THEN mp, OF t]
  note w2 = bbox_sixteen_digits [where a = ?A and key = tile_third, THEN mp, OF t]
  from w1 e have "image_url ?A tile_10_5
       = url ?A @ ''/export?'' @ ''bbox=-10,-5,10,5'' @ ''&format='' @ image_format ?A
           @ ''&size=256,256&transparent=true&f=image&.'' @ image_format ?A"
    by blast
  then have u1: "image_url ?A tile_10_5
       = ''http://server/ArcGIS/rest/services/Layer/MapServer/export?bbox=-10,-5,10,5&format=png&size=256,256&transparent=true&f=image&.png''"
    by (simp add: fmt export_adapter server_url_def)
  from w2 have "image_url ?A tile_third
       = url ?A @ ''/export?'' @ ''bbox=''
           @ show_double 16 (xMin (getGeoExtent tile_third)) @ '',''
           @ show_double 16 (yMin (getGeoExtent tile_third)) @ '',''
           @ show_double 16 (xMax (getGeoExtent tile_third)) @ '',''
           @ show_double 16 (yMax (getGeoExtent tile_third))
           @ ''&format='' @ image_format ?A @ ''&size=256,256&transparent=true&f=image&.''
           @ image_format ?A"
    by blast
  then have u2: "image_url ?A tile_third
       = ''http://server/ArcGIS/rest/services/Layer/MapServer/export?bbox=0.3333333333333333,0,1,1&format=png&size=256,256&transparent=true&f=image&.png''"
    by (simp add: fmt export_adapter server_url_def tile_third_def round64_third show_g_third show_g_1)
  from w2 f(1)
  have "\<bar>decimal_value (show_double 16 (xMin (getGeoExtent tile_third))) - valof (xMin (getGeoExtent tile_third))\<bar>
            \<le> half_unit 16 (valof (xMin (getGeoExtent tile_third)))"
    by blast
  then have b: "\<bar>3333333333333333 / 10000000000000000 - 6004799503160661 / 18014398509481984\<bar>
       \<le> (1 / 20000000000000000 :: rat)"
    by (simp only: tile_third_def round64_third TileKey.simps GeoExtent.simps show_double.simps
        show_g_third decimal_value_third valof_def double.case half_unit_third)
  from t e u1 f u2 b show ?thesis by blast
qed

section \<open>Requests after a failed metadata fetch\<close>

lemma failed_adapter:
  "map_service (ArcGISSource failed_service server_options) = snd (failed_service server_url)"
  "url (ArcGISSource failed_service server_options) = server_url"
  by (simp_all add: map_service_ArcGISSource url_ArcGISSource getPluginData_server)

text \<open>
  C2 as stated fails: \<^verbatim>\<open>createImage\<close> never looks at the outcome of
  \<^verbatim>\<open>MapService::init\<close>. When the metadata fetch has failed (and the warning has been
  logged) it still builds a URL from the descriptor, here the export form with an
  empty format, and returns the image the HTTP client delivers for it.
\<close>

theorem createImage_after_failed_init_counterexample:
  "\<not> fst (failed_service (getPluginData server_options ''url''))
   \<and> ArcGISSource_warnings failed_service server_options
       = [''[osgearth] [ArcGIS] map service initialization failed: Unable to read metadata from ArcGIS service'']
   \<and> image_url (ArcGISSource failed_service server_options) tile_10_5
       = ''http://server/ArcGIS/rest/services/Layer/MapServer/export?bbox=-10,-5,10,5&format=&size=256,256&transparent=true&f=image&.''
   \<and> fst (createImage image_server (ArcGISSource failed_service server_options) tile_10_5 ())
       = Some ''image''"
  by (simp add: createImage_def image_server_def ArcGISSource_warnings_def getPluginData_server
      image_url_def image_format_def Let_def failed_adapter failed_service_def
      tile_10_5_def show_g_10_5 server_url_def)

lemma image_url_initialize:
  "image_url (initialize createNamed globalGeodetic uri ov a) key = image_url a key"
  by (simp add: image_url_def image_format_def initialize_def Let_def)

lemma options_initialize:
  "options (initialize createNamed globalGeodetic uri ov a) = options a"
  by (simp add: initialize_def Let_def)

text \<open>
  C2, amended. After a failed metadata fetch \<^verbatim>\<open>createImage\<close>, before or after
  \<^verbatim>\<open>initialize\<close>, still asks the HTTP client for the URL it builds from the descriptor
  that \<^verbatim>\<open>MapService::init\<close> left behind, and returns the client's answer: the result is
  "not available" exactly when the client returns no image for that URL.
\<close>

theorem createImage_after_failed_init:
  "\<not> fst (init (getPluginData opts ''url'')) \<longrightarrow>
     fst (createImage readImageFile (ArcGISSource init opts) key progress)
       = readImageFile (image_url (ArcGISSource init opts) key) opts progress
     \<and> fst (createImage readImageFile
              (initialize createNamed globalGeodetic uri ov (ArcGISSource init opts)) key progress)
       = readImageFile (image_url (ArcGISSource init opts) key) opts progress
     \<and> (fst (createImage readImageFile (ArcGISSource init opts) key progress) = None
          \<longleftrightarrow> readImageFile (image_url (ArcGISSource init opts) key) opts progress = None)"
  by (simp add: createImage_def image_url_initialize options_initialize options_ArcGISSource)

theorem createImage_after_failed_init_witness:
  "\<not> fst (failed_service (getPluginData server_options ''url''))
   \<and> fst (createImage image_server (ArcGISSource failed_service server_options) tile_3_5_2 ())
       = image_server (image_url (ArcGISSource failed_service server_options) tile_3_5_2)
           server_options ()"
proof -
  have f: "\<not> fst (failed_service (getPluginData server_options ''url''))"
    by (simp add: failed_service_def)
  from createImage_after_failed_init [where init = failed_service and opts = server_options
      and readImageFile = image_server and key = tile_3_5_2 and progress = "()"
      and createNamed = named_profile and globalGeodetic = geodetic and uri = "[]" and ov = None,
      THEN mp, OF f, THEN conjunct1] f
  show ?thesis by (rule conjI [rotated])
qed

end
